theory Spec2Isabelle
  imports Main "HOL-Library.Product_Lexorder" "HOL-Library.AList"
begin

section \<open>Checkpoint algebra\<close>

text \<open>
  The source imports the checkpoint type and its comparison helpers from
  \<^verbatim>\<open>@/utils/checkpoint.js\<close>, which is not among the source files. The type is
  \<^verbatim>\<open>{ blockTimestamp, chainId, blockNumber, logIndex? }\<close>; JavaScript numbers that
  hold block data are modelled as natural numbers.
\<close>

datatype checkpoint =
  Checkpoint (blockTimestamp: nat) (chainId: nat) (blockNumber: nat) (logIndex: "nat option")

text \<open>
  Modelled from the spec: the order of \<^verbatim>\<open>@/utils/checkpoint.js\<close> (missing). The spec
  says the total order is lexicographic in the field order
  (blockTimestamp, chainId, blockNumber, logIndex) and that a missing logIndex stands for
  the end of the block, so it is placed after every concrete index of the same block.
\<close>

fun logIndex_less :: "nat option \<Rightarrow> nat option \<Rightarrow> bool" where
  "logIndex_less (Some i) (Some j) = (i < j)"
| "logIndex_less (Some i) None = True"
| "logIndex_less None _ = False"

instantiation checkpoint :: linorder
begin

definition less_checkpoint :: "checkpoint \<Rightarrow> checkpoint \<Rightarrow> bool" where
  "less_checkpoint a b =
     (blockTimestamp a < blockTimestamp b \<or>
      (blockTimestamp a = blockTimestamp b \<and>
       (chainId a < chainId b \<or>
        (chainId a = chainId b \<and>
         (blockNumber a < blockNumber b \<or>
          (blockNumber a = blockNumber b \<and> logIndex_less (logIndex a) (logIndex b)))))))"

definition less_eq_checkpoint :: "checkpoint \<Rightarrow> checkpoint \<Rightarrow> bool" where
  "less_eq_checkpoint a b = (a = b \<or> a < b)"

instance
proof
  fix x y z :: checkpoint
  show "(x < y) = (x \<le> y \<and> \<not> y \<le> x)"
    by (cases x; cases y; cases "logIndex x"; cases "logIndex y")
       (auto simp: less_eq_checkpoint_def less_checkpoint_def)
  show "x \<le> x"
    by (simp add: less_eq_checkpoint_def)
  show "x \<le> y \<Longrightarrow> y \<le> z \<Longrightarrow> x \<le> z"
    by (cases x; cases y; cases z; cases "logIndex x"; cases "logIndex y"; cases "logIndex z")
       (auto simp: less_eq_checkpoint_def less_checkpoint_def)
  show "x \<le> y \<Longrightarrow> y \<le> x \<Longrightarrow> x = y"
    by (cases x; cases y; cases "logIndex x"; cases "logIndex y")
       (auto simp: less_eq_checkpoint_def less_checkpoint_def)
  show "x \<le> y \<or> y \<le> x"
    by (cases x; cases y; cases "logIndex x"; cases "logIndex y")
       (auto simp: less_eq_checkpoint_def less_checkpoint_def)
qed

end

definition zeroCheckpoint :: checkpoint where
  "zeroCheckpoint = Checkpoint 0 0 0 (Some 0)"

definition isCheckpointEqual :: "checkpoint \<Rightarrow> checkpoint \<Rightarrow> bool" where
  "isCheckpointEqual a b = (a = b)"

definition isCheckpointGreaterThan :: "checkpoint \<Rightarrow> checkpoint \<Rightarrow> bool" where
  "isCheckpointGreaterThan a b = (b < a)"


definition checkpointMax :: "checkpoint \<Rightarrow> checkpoint \<Rightarrow> checkpoint" where
  "checkpointMax a b = (if isCheckpointGreaterThan b a then b else a)"

text \<open>
  \<^verbatim>\<open>checkpointMin(...checkpoints)\<close> takes any number of arguments; the spec says nothing
  about a call without arguments, which the model reports as \<open>None\<close>.
\<close>

fun checkpointMin :: "checkpoint list \<Rightarrow> checkpoint option" where
  "checkpointMin [] = None"
| "checkpointMin (c # cs) = Some (fold min cs c)"

section \<open>Sync store: tables\<close>

text \<open>
  The Postgres sync store (\<^verbatim>\<open>PostgresSyncStore\<close>) is modelled as a record of tables, each
  table a list of rows in storage order. Only the columns that the operations below
  test or return are kept; the remaining RPC payload columns (gas, nonce, roots, ...)
  are copied through by the source without being inspected. Numeric columns are
  natural numbers.
\<close>

record block_row =
  block_hash :: string
  block_chainId :: nat
  block_number :: nat
  block_timestamp :: nat

record transaction_row =
  tx_hash :: string
  tx_chainId :: nat
  tx_blockNumber :: nat

record log_row =
  log_id :: string
  log_chainId :: nat
  log_blockHash :: string
  log_blockNumber :: nat
  log_logIndex :: nat
  log_address :: string
  log_topic0 :: "string option"
  log_topic1 :: "string option"
  log_topic2 :: "string option"
  log_topic3 :: "string option"
  log_data :: string
  log_transactionHash :: string

record rpcRequestResult_row =
  rpc_request :: string
  rpc_blockNumber :: nat
  rpc_chainId :: nat
  rpc_result :: string

record logFilter_row =
  lf_id :: string
  lf_chainId :: nat
  lf_address :: "string option"
  lf_topic0 :: "string option"
  lf_topic1 :: "string option"
  lf_topic2 :: "string option"
  lf_topic3 :: "string option"

record logFilterInterval_row =
  lfi_logFilterId :: string
  lfi_startBlock :: nat
  lfi_endBlock :: nat

record factory_row =
  fac_id :: string
  fac_chainId :: nat
  fac_address :: string
  fac_eventSelector :: string
  fac_childAddressLocation :: string
  fac_topic0 :: "string option"
  fac_topic1 :: "string option"
  fac_topic2 :: "string option"
  fac_topic3 :: "string option"

record factoryLogFilterInterval_row =
  fli_factoryId :: string
  fli_startBlock :: nat
  fli_endBlock :: nat

record syncStore =
  blocks :: "block_row list"
  transactions :: "transaction_row list"
  logs :: "log_row list"
  rpcRequestResults :: "rpcRequestResult_row list"
  logFilters :: "logFilter_row list"
  logFilterIntervals :: "logFilterInterval_row list"
  factories :: "factory_row list"
  factoryLogFilterIntervals :: "factoryLogFilterInterval_row list"

section \<open>Sync store: deleteRealtimeData\<close>

text \<open>
  The interval tables carry no chain id. The source finds the chain of an interval row
  with the scalar subquery
  \<^verbatim>\<open>(select logFilters.chainId from logFilters where logFilters.id = logFilterIntervals.logFilterId limit 1)\<close>,
  which is NULL when no filter row has that id; NULL compared with the chain id is not
  true, so such a row is left alone.
\<close>

definition logFilterInterval_chainId :: "syncStore \<Rightarrow> logFilterInterval_row \<Rightarrow> nat option" where
  "logFilterInterval_chainId db r =
     map_option lf_chainId (find (\<lambda>f. lf_id f = lfi_logFilterId r) (logFilters db))"

definition factoryLogFilterInterval_chainId ::
  "syncStore \<Rightarrow> factoryLogFilterInterval_row \<Rightarrow> nat option" where
  "factoryLogFilterInterval_chainId db r =
     map_option fac_chainId (find (\<lambda>f. fac_id f = fli_factoryId r) (factories db))"

text \<open>
  \<^verbatim>\<open>deleteRealtimeData({ chainId, fromBlock })\<close>: one transaction of four deletes on the
  data tables, then for each interval table a delete (startBlock > fromBlock) followed
  by an update (endBlock > fromBlock gets endBlock = fromBlock). The statements are
  applied in the order of the source.
\<close>

definition deleteRealtimeData :: "nat \<Rightarrow> nat \<Rightarrow> syncStore \<Rightarrow> syncStore" where
  "deleteRealtimeData cid fromBlock db =
     (let db1 = db\<lparr>blocks :=
                 filter (\<lambda>b. \<not> (block_chainId b = cid \<and> block_number b > fromBlock)) (blocks db)\<rparr>;
          db2 = db1\<lparr>transactions :=
                 filter (\<lambda>t. \<not> (tx_chainId t = cid \<and> tx_blockNumber t > fromBlock))
                   (transactions db1)\<rparr>;
          db3 = db2\<lparr>logs :=
                 filter (\<lambda>l. \<not> (log_chainId l = cid \<and> log_blockNumber l > fromBlock)) (logs db2)\<rparr>;
          db4 = db3\<lparr>rpcRequestResults :=
                 filter (\<lambda>r. \<not> (rpc_chainId r = cid \<and> rpc_blockNumber r > fromBlock))
                   (rpcRequestResults db3)\<rparr>;
          db5 = db4\<lparr>logFilterIntervals :=
                 filter (\<lambda>r. \<not> (logFilterInterval_chainId db4 r = Some cid \<and>
                                 lfi_startBlock r > fromBlock))
                   (logFilterIntervals db4)\<rparr>;
          db6 = db5\<lparr>logFilterIntervals :=
                 map (\<lambda>r. if logFilterInterval_chainId db5 r = Some cid \<and> lfi_endBlock r > fromBlock
                           then r\<lparr>lfi_endBlock := fromBlock\<rparr> else r)
                   (logFilterIntervals db5)\<rparr>;
          db7 = db6\<lparr>factoryLogFilterIntervals :=
                 filter (\<lambda>r. \<not> (factoryLogFilterInterval_chainId db6 r = Some cid \<and>
                                 fli_startBlock r > fromBlock))
                   (factoryLogFilterIntervals db6)\<rparr>;
          db8 = db7\<lparr>factoryLogFilterIntervals :=
                 map (\<lambda>r. if factoryLogFilterInterval_chainId db7 r = Some cid \<and>
                              fli_endBlock r > fromBlock
                           then r\<lparr>fli_endBlock := fromBlock\<rparr> else r)
                   (factoryLogFilterIntervals db7)\<rparr>
      in db8)"

section \<open>Sync store: getLogEvents\<close>

text \<open>
  SQL conditions are three-valued: a comparison with NULL is unknown (\<open>None\<close>), and a
  WHERE clause keeps a row only when its condition is true. \<open>sql_and\<close> and \<open>sql_or\<close>
  are the query builder's \<^verbatim>\<open>and([...])\<close> and \<^verbatim>\<open>or([...])\<close>; on the empty list they
  are true and false.
\<close>

datatype cmp_op = OpGt | OpGe | OpLt | OpLe

definition sql_and :: "bool option list \<Rightarrow> bool option" where
  "sql_and xs = (if Some False \<in> set xs then Some False
                 else if None \<in> set xs then None else Some True)"

definition sql_or :: "bool option list \<Rightarrow> bool option" where
  "sql_or xs = (if Some True \<in> set xs then Some True
                else if None \<in> set xs then None else Some False)"

fun sql_cmp :: "cmp_op \<Rightarrow> nat option \<Rightarrow> nat \<Rightarrow> bool option" where
  "sql_cmp _ None _ = None"
| "sql_cmp OpGt (Some x) v = Some (x > v)"
| "sql_cmp OpGe (Some x) v = Some (x \<ge> v)"
| "sql_cmp OpLt (Some x) v = Some (x < v)"
| "sql_cmp OpLe (Some x) v = Some (x \<le> v)"

definition sql_eq :: "'a option \<Rightarrow> 'a \<Rightarrow> bool option" where
  "sql_eq col v = map_option (\<lambda>x. x = v) col"

definition sql_in :: "'a option \<Rightarrow> 'a option list \<Rightarrow> bool option" where
  "sql_in col vals =
     (case col of None \<Rightarrow> None
      | Some x \<Rightarrow> if Some x \<in> set vals then Some True
                  else if None \<in> set vals then None else Some False)"

text \<open>A row of \<^verbatim>\<open>logs LEFT JOIN blocks LEFT JOIN transactions\<close>: the block and the
  transaction columns are NULL when the join finds no partner.\<close>

record joined_row =
  jr_log :: log_row
  jr_block :: "block_row option"
  jr_tx :: "transaction_row option"

definition left_join :: "('b \<Rightarrow> bool) \<Rightarrow> 'b list \<Rightarrow> 'b option list" where
  "left_join on_cond xs = (case filter on_cond xs of [] \<Rightarrow> [None] | ys \<Rightarrow> map Some ys)"

definition logs_blocks_transactions :: "syncStore \<Rightarrow> joined_row list" where
  "logs_blocks_transactions db =
     concat (map (\<lambda>l.
       concat (map (\<lambda>b.
         map (\<lambda>t. \<lparr>jr_log = l, jr_block = b, jr_tx = t\<rparr>)
           (left_join (\<lambda>t. tx_hash t = log_transactionHash l) (transactions db)))
         (left_join (\<lambda>b. block_hash b = log_blockHash l) (blocks db))))
       (logs db))"

definition logs_blocks :: "syncStore \<Rightarrow> joined_row list" where
  "logs_blocks db =
     concat (map (\<lambda>l.
         map (\<lambda>b. \<lparr>jr_log = l, jr_block = b, jr_tx = None\<rparr>)
           (left_join (\<lambda>b. block_hash b = log_blockHash l) (blocks db)))
       (logs db))"

definition col_blocks_timestamp :: "joined_row \<Rightarrow> nat option" where
  "col_blocks_timestamp r = map_option block_timestamp (jr_block r)"

definition col_blocks_number :: "joined_row \<Rightarrow> nat option" where
  "col_blocks_number r = map_option block_number (jr_block r)"

definition col_logs_chainId :: "joined_row \<Rightarrow> nat option" where
  "col_logs_chainId r = Some (log_chainId (jr_log r))"

definition col_logs_logIndex :: "joined_row \<Rightarrow> nat option" where
  "col_logs_logIndex r = Some (log_logIndex (jr_log r))"

text \<open>
  \<^verbatim>\<open>buildCheckpointCmprs(eb, op, checkpoint)\<close>. \<^verbatim>\<open>operand\<close> is the strict form of
  \<^verbatim>\<open>op\<close>, \<^verbatim>\<open>operandOrEquals\<close> its non-strict form and \<^verbatim>\<open>isInclusive\<close> says whether
  \<^verbatim>\<open>op\<close> ends with \<^verbatim>\<open>=\<close>. When logIndex is undefined the innermost comparison is on
  the block number (block granularity); otherwise it goes down to the log index.
\<close>

definition buildCheckpointCmprs :: "cmp_op \<Rightarrow> checkpoint \<Rightarrow> joined_row \<Rightarrow> bool option" where
  "buildCheckpointCmprs op c r =
     (let operand = (if op = OpGt \<or> op = OpGe then OpGt else OpLt);
          operandOrEquals = (if operand = OpGt then OpGe else OpLe);
          isInclusive = (op = OpGe \<or> op = OpLe)
      in case logIndex c of
           None \<Rightarrow>
             sql_and [
               sql_cmp operandOrEquals (col_blocks_timestamp r) (blockTimestamp c),
               sql_or [
                 sql_cmp operand (col_blocks_timestamp r) (blockTimestamp c),
                 sql_and [
                   sql_cmp operandOrEquals (col_logs_chainId r) (chainId c),
                   sql_or [
                     sql_cmp operand (col_logs_chainId r) (chainId c),
                     sql_cmp (if isInclusive then operandOrEquals else operand)
                       (col_blocks_number r) (blockNumber c)]]]]
         | Some li \<Rightarrow>
             sql_and [
               sql_cmp operandOrEquals (col_blocks_timestamp r) (blockTimestamp c),
               sql_or [
                 sql_cmp operand (col_blocks_timestamp r) (blockTimestamp c),
                 sql_and [
                   sql_cmp operandOrEquals (col_logs_chainId r) (chainId c),
                   sql_or [
                     sql_cmp operand (col_logs_chainId r) (chainId c),
                     sql_and [
                       sql_cmp operandOrEquals (col_blocks_number r) (blockNumber c),
                       sql_or [
                         sql_cmp operand (col_blocks_number r) (blockNumber c),
                         sql_cmp (if isInclusive then operandOrEquals else operand)
                           (col_logs_logIndex r) li]]]]]])"

text \<open>
  Filter arguments. \<^verbatim>\<open>LogFilterCriteria\<close> has an optional address (one value or an
  array) and optional topics (each slot null, one value or an array);
  \<^verbatim>\<open>FactoryCriteria\<close> has the factory address, its event selector and the location of
  the child address (\<^verbatim>\<open>"topic1" | "topic2" | "topic3" | `offset${number}`\<close>).
\<close>

datatype 'a one_or_many = One 'a | Many "'a list"

record logFilterCriteria =
  crit_address :: "string one_or_many option"
  crit_topics :: "string one_or_many option list option"

record logFilterArg =
  lfa_id :: string
  lfa_chainId :: nat
  lfa_criteria :: logFilterCriteria
  lfa_fromBlock :: "nat option"
  lfa_toBlock :: "nat option"
  lfa_eventSelector :: string

datatype childAddressLocation = Topic1 | Topic2 | Topic3 | Offset nat

record factoryCriteria =
  fc_address :: string
  fc_eventSelector :: string
  fc_childAddressLocation :: childAddressLocation

record factoryArg =
  fa_id :: string
  fa_chainId :: nat
  fa_criteria :: factoryCriteria
  fa_fromBlock :: "nat option"
  fa_toBlock :: "nat option"
  fa_eventSelector :: string

datatype eventSources = LogFilters "logFilterArg list" | Factories "factoryArg list"

text \<open>SQL \<^verbatim>\<open>substring(s from start for len)\<close> counts characters from 1.\<close>

definition sql_substring :: "string \<Rightarrow> nat \<Rightarrow> nat \<Rightarrow> string" where
  "sql_substring s start len = take len (drop (start - 1) s)"

fun buildFactoryChildAddressSelectExpression ::
  "childAddressLocation \<Rightarrow> log_row \<Rightarrow> string option" where
  "buildFactoryChildAddressSelectExpression (Offset childAddressOffset) l =
     Some (''0x'' @ sql_substring (log_data l) (2 + 12 * 2 + childAddressOffset * 2 + 1) (20 * 2))"
| "buildFactoryChildAddressSelectExpression Topic1 l =
     map_option (\<lambda>t. ''0x'' @ sql_substring t (2 + 12 * 2 + 1) (20 * 2)) (log_topic1 l)"
| "buildFactoryChildAddressSelectExpression Topic2 l =
     map_option (\<lambda>t. ''0x'' @ sql_substring t (2 + 12 * 2 + 1) (20 * 2)) (log_topic2 l)"
| "buildFactoryChildAddressSelectExpression Topic3 l =
     map_option (\<lambda>t. ''0x'' @ sql_substring t (2 + 12 * 2 + 1) (20 * 2)) (log_topic3 l)"

text \<open>JavaScript truthiness of an address criterion (\<^verbatim>\<open>if (criteria.address)\<close>): the
  empty string is falsy, every array is truthy. An array of length one is collapsed
  to its element.\<close>

fun truthy :: "string one_or_many \<Rightarrow> bool" where
  "truthy (One s) = (s \<noteq> [])"
| "truthy (Many xs) = True"

fun collapse :: "'a one_or_many \<Rightarrow> 'a one_or_many" where
  "collapse (Many [x]) = One x"
| "collapse v = v"

fun eq_one_or_many :: "string option \<Rightarrow> string one_or_many \<Rightarrow> bool option" where
  "eq_one_or_many col (Many xs) = sql_or (map (\<lambda>a. sql_eq col a) xs)"
| "eq_one_or_many col (One a) = sql_eq col a"

definition col_logs_topic :: "nat \<Rightarrow> joined_row \<Rightarrow> string option" where
  "col_logs_topic idx r =
     (if idx = 0 then log_topic0 (jr_log r) else if idx = 1 then log_topic1 (jr_log r)
      else if idx = 2 then log_topic2 (jr_log r) else log_topic3 (jr_log r))"

definition topicCmprs :: "string one_or_many option list \<Rightarrow> joined_row \<Rightarrow> bool option list" where
  "topicCmprs topics r =
     concat (map (\<lambda>idx.
        (case (if idx < length topics then topics ! idx else None) of
           None \<Rightarrow> []
         | Some raw \<Rightarrow> [eq_one_or_many (col_logs_topic idx r) (collapse raw)]))
       [0 ..< 4])"

definition blockRangeCmprs :: "nat option \<Rightarrow> nat option \<Rightarrow> joined_row \<Rightarrow> bool option list" where
  "blockRangeCmprs fromBlock toBlock r =
     (case fromBlock of Some n \<Rightarrow> (if n \<noteq> 0 then [sql_cmp OpGe (col_blocks_number r) n] else [])
      | None \<Rightarrow> []) @
     (case toBlock of Some n \<Rightarrow> (if n \<noteq> 0 then [sql_cmp OpLe (col_blocks_number r) n] else [])
      | None \<Rightarrow> [])"

definition buildLogFilterCmprs :: "logFilterArg \<Rightarrow> joined_row \<Rightarrow> bool option list" where
  "buildLogFilterCmprs logFilter r =
     [sql_eq (col_logs_chainId r) (lfa_chainId logFilter)] @
     (case crit_address (lfa_criteria logFilter) of
        None \<Rightarrow> []
      | Some a \<Rightarrow> if truthy a
                  then [eq_one_or_many (Some (log_address (jr_log r))) (collapse a)] else []) @
     (case crit_topics (lfa_criteria logFilter) of
        None \<Rightarrow> []
      | Some topics \<Rightarrow> topicCmprs topics r) @
     blockRangeCmprs (lfa_fromBlock logFilter) (lfa_toBlock logFilter) r"

definition buildFactoryCmprs :: "syncStore \<Rightarrow> factoryArg \<Rightarrow> joined_row \<Rightarrow> bool option list" where
  "buildFactoryCmprs db factory r =
     [sql_eq (col_logs_chainId r) (fa_chainId factory),
      sql_in (Some (log_address (jr_log r)))
        (map (buildFactoryChildAddressSelectExpression
                (fc_childAddressLocation (fa_criteria factory)))
           (filter (\<lambda>l. log_chainId l = fa_chainId factory \<and>
                         log_address l = fc_address (fa_criteria factory) \<and>
                         log_topic0 l = Some (fc_eventSelector (fa_criteria factory)))
              (logs db)))] @
     blockRangeCmprs (fa_fromBlock factory) (fa_toBlock factory) r"

text \<open>The first WHERE clause of both queries: some filter matches and the log's topic0
  is that filter's event selector.\<close>

definition sourcesCmpr :: "syncStore \<Rightarrow> eventSources \<Rightarrow> joined_row \<Rightarrow> bool option" where
  "sourcesCmpr db sources r =
     (let logFilterCmprs =
            (case sources of
               LogFilters lfs \<Rightarrow>
                 map (\<lambda>logFilter. sql_and (buildLogFilterCmprs logFilter r @
                        [sql_eq (log_topic0 (jr_log r)) (lfa_eventSelector logFilter)])) lfs
             | Factories _ \<Rightarrow> []);
          factoryCmprs =
            (case sources of
               Factories facs \<Rightarrow>
                 map (\<lambda>factory. sql_and (buildFactoryCmprs db factory r @
                        [sql_eq (log_topic0 (jr_log r)) (fa_eventSelector factory)])) facs
             | LogFilters _ \<Rightarrow> [])
      in sql_or (logFilterCmprs @ factoryCmprs))"

definition whereClauses ::
  "syncStore \<Rightarrow> eventSources \<Rightarrow> checkpoint \<Rightarrow> checkpoint \<Rightarrow> joined_row \<Rightarrow> bool" where
  "whereClauses db sources fromCheckpoint toCheckpoint r =
     (sourcesCmpr db sources r = Some True \<and>
      buildCheckpointCmprs OpGt fromCheckpoint r = Some True \<and>
      buildCheckpointCmprs OpLe toCheckpoint r = Some True)"

text \<open>
  \<^verbatim>\<open>ORDER BY blocks.timestamp, logs.chainId, blocks.number, logs.logIndex\<close> (ascending):
  the sort key is the tuple of the four columns under the lexicographic order; a row
  without block (NULL columns) sorts last, as Postgres does. SQL leaves the order of
  rows with equal keys open; the model keeps them in table order (a stable sort).
\<close>

definition order_key :: "joined_row \<Rightarrow> nat \<times> nat \<times> nat \<times> nat \<times> nat" where
  "order_key r =
     (case jr_block r of
        Some b \<Rightarrow> (0, block_timestamp b, log_chainId (jr_log r), block_number b,
                   log_logIndex (jr_log r))
      | None \<Rightarrow> (1, 0, log_chainId (jr_log r), 0, log_logIndex (jr_log r)))"

datatype error = TypeError | DatabaseError

record logEvent =
  ev_chainId :: nat
  ev_log :: log_row
  ev_block :: block_row
  ev_transaction :: transaction_row

record logEventsPage =
  events :: "logEvent list"
  hasNextPage :: bool
  lastCheckpointInPage :: "checkpoint option"
  lastCheckpoint :: "checkpoint option"

text \<open>
  Building an event from a result row reads the block and transaction columns as
  non-null (\<^verbatim>\<open>checksumAddress(row.block_miner)\<close>, \<^verbatim>\<open>checksumAddress(row.tx_from)\<close>): a
  row whose join found no block or no transaction makes the mapping throw.
\<close>

definition toEvent :: "joined_row \<Rightarrow> error + logEvent" where
  "toEvent r =
     (case (jr_block r, jr_tx r) of
        (Some b, Some t) \<Rightarrow>
          Inr \<lparr>ev_chainId = log_chainId (jr_log r), ev_log = jr_log r, ev_block = b,
               ev_transaction = t\<rparr>
      | _ \<Rightarrow> Inl TypeError)"

fun mapM :: "('a \<Rightarrow> error + 'b) \<Rightarrow> 'a list \<Rightarrow> error + 'b list" where
  "mapM f [] = Inr []"
| "mapM f (x # xs) =
     (case f x of Inl e \<Rightarrow> Inl e
      | Inr y \<Rightarrow> (case mapM f xs of Inl e \<Rightarrow> Inl e | Inr ys \<Rightarrow> Inr (y # ys)))"

definition eventCheckpoint :: "logEvent \<Rightarrow> checkpoint" where
  "eventCheckpoint e =
     Checkpoint (block_timestamp (ev_block e)) (ev_chainId e) (block_number (ev_block e))
       (Some (log_logIndex (ev_log e)))"

definition rowCheckpoint :: "joined_row \<Rightarrow> checkpoint option" where
  "rowCheckpoint r =
     map_option (\<lambda>b. Checkpoint (block_timestamp b) (log_chainId (jr_log r)) (block_number b)
                        (Some (log_logIndex (jr_log r)))) (jr_block r)"

text \<open>
  \<^verbatim>\<open>getLogEvents({ fromCheckpoint, toCheckpoint, limit, logFilters | factories })\<close>.
  The first query returns at most \<open>limit + 1\<close> rows in ascending order (a negative
  LIMIT is a database error); the second returns the last matching row. When
  \<open>limit + 1\<close> events came back the last one is dropped and the checkpoint of the new
  last event is reported; with \<open>limit = 0\<close> there is no such event and the property
  access throws.
\<close>

definition getLogEvents ::
  "syncStore \<Rightarrow> checkpoint \<Rightarrow> checkpoint \<Rightarrow> int \<Rightarrow> eventSources \<Rightarrow> error + logEventsPage" where
  "getLogEvents db fromCheckpoint toCheckpoint limit sources =
     (if limit + 1 < 0 then Inl DatabaseError
      else
        let requestedLogs =
              take (nat (limit + 1))
                (sort_key order_key
                   (filter (whereClauses db sources fromCheckpoint toCheckpoint)
                      (logs_blocks_transactions db)));
            lastCheckpointRows =
              take 1
                (rev (sort_key order_key
                   (filter (whereClauses db sources fromCheckpoint toCheckpoint)
                      (logs_blocks db))));
            lastCheckpoint' = (case lastCheckpointRows of [] \<Rightarrow> None | r # _ \<Rightarrow> rowCheckpoint r)
        in case mapM toEvent requestedLogs of
             Inl e \<Rightarrow> Inl e
           | Inr evs \<Rightarrow>
               if int (length evs) = limit + 1
               then (case butlast evs of
                       [] \<Rightarrow> Inl TypeError
                     | e # es \<Rightarrow>
                         Inr \<lparr>events = e # es, hasNextPage = True,
                              lastCheckpointInPage = Some (eventCheckpoint (last (e # es))),
                              lastCheckpoint = lastCheckpoint'\<rparr>)
               else Inr \<lparr>events = evs, hasNextPage = False, lastCheckpointInPage = None,
                         lastCheckpoint = lastCheckpoint'\<rparr>)"

section \<open>Interval algebra\<close>

text \<open>
  Modelled from the spec: \<^verbatim>\<open>intervalUnion\<close> and \<^verbatim>\<open>intervalIntersectionMany\<close> of
  \<^verbatim>\<open>@/utils/interval.js\<close> (missing). An interval is a closed range
  \<open>[startBlock, endBlock]\<close> of block numbers. By the spec \<open>intervalUnion xs\<close> is the
  minimal sorted list of disjoint intervals covering \<open>xs\<close> (so overlapping and adjacent
  intervals are merged) and \<open>intervalIntersectionMany xss\<close> is the pointwise
  intersection.
\<close>

type_synonym interval = "nat \<times> nat"





definition intervalCover :: "interval list \<Rightarrow> nat set" where
  "intervalCover xs = (\<Union>(a, b) \<in> set xs. {a .. b})"

section \<open>Sync store: getLogFilterIntervals\<close>













section \<open>Sync store: getFactoryChildAddresses\<close>

text \<open>
  The base query selects the child address expression and the block number of the
  factory's logs up to \<open>upToBlockNumber\<close>, with \<^verbatim>\<open>LIMIT pageSize\<close> and no ORDER BY:
  rows come back in table order. The cursor condition \<^verbatim>\<open>blockNumber > cursor\<close> is
  added under \<^verbatim>\<open>if (cursor)\<close>, which is false for an undefined cursor and for the
  bigint zero.
\<close>

definition factoryChildAddressRows ::
  "syncStore \<Rightarrow> nat \<Rightarrow> nat \<Rightarrow> factoryCriteria \<Rightarrow> (string option \<times> nat) list" where
  "factoryChildAddressRows db cid upToBlockNumber factory =
     map (\<lambda>l. (buildFactoryChildAddressSelectExpression (fc_childAddressLocation factory) l,
                log_blockNumber l))
       (filter (\<lambda>l. log_chainId l = cid \<and> log_address l = fc_address factory \<and>
                     log_topic0 l = Some (fc_eventSelector factory) \<and>
                     log_blockNumber l \<le> upToBlockNumber)
          (logs db))"

definition factoryChildAddressQuery ::
  "syncStore \<Rightarrow> nat \<Rightarrow> nat \<Rightarrow> factoryCriteria \<Rightarrow> nat \<Rightarrow> nat option \<Rightarrow>
   (string option \<times> nat) list" where
  "factoryChildAddressQuery db cid upToBlockNumber factory pageSize cursor =
     take pageSize
       (filter (\<lambda>row. case cursor of
                         Some c \<Rightarrow> (if c \<noteq> 0 then snd row > c else True)
                       | None \<Rightarrow> True)
          (factoryChildAddressRows db cid upToBlockNumber factory))"

text \<open>
  The generator's \<^verbatim>\<open>while (true)\<close> loop. The result is the finite sequence of yielded
  batches; the loop need not end, so the model counts iterations down from a fuel
  argument and returns \<open>None\<close> when the fuel runs out before the loop breaks.
\<close>

fun getFactoryChildAddresses_loop ::
  "nat \<Rightarrow> syncStore \<Rightarrow> nat \<Rightarrow> nat \<Rightarrow> factoryCriteria \<Rightarrow> nat \<Rightarrow> nat option \<Rightarrow>
   string option list list option" where
  "getFactoryChildAddresses_loop 0 db cid upToBlockNumber factory pageSize cursor = None"
| "getFactoryChildAddresses_loop (Suc fuel) db cid upToBlockNumber factory pageSize cursor =
     (let batch = factoryChildAddressQuery db cid upToBlockNumber factory pageSize cursor;
          cursor' = (if batch = [] then cursor else Some (snd (last batch)));
          yielded = (if length batch > 0 then [map fst batch] else [])
      in if length batch < pageSize then Some yielded
         else map_option (\<lambda>rest. yielded @ rest)
                (getFactoryChildAddresses_loop fuel db cid upToBlockNumber factory pageSize cursor'))"

definition getFactoryChildAddresses ::
  "nat \<Rightarrow> syncStore \<Rightarrow> nat \<Rightarrow> nat \<Rightarrow> factoryCriteria \<Rightarrow> nat \<Rightarrow> string option list list option" where
  "getFactoryChildAddresses fuel db cid upToBlockNumber factory pageSize =
     getFactoryChildAddresses_loop fuel db cid upToBlockNumber factory pageSize None"

text \<open>A store in which a factory (address 0xfac, event 0xcreated, child address in
  topic1) announced two children in the same block 7 of chain 1.\<close>

definition factoryStore :: syncStore where
  "factoryStore = \<lparr>
     blocks = [\<lparr>block_hash = ''0xa'', block_chainId = 1, block_number = 7, block_timestamp = 70\<rparr>],
     transactions = [\<lparr>tx_hash = ''0x1'', tx_chainId = 1, tx_blockNumber = 7\<rparr>],
     logs = [\<lparr>log_id = ''0xa-0'', log_chainId = 1, log_blockHash = ''0xa'', log_blockNumber = 7,
               log_logIndex = 0, log_address = ''0xfac'', log_topic0 = Some ''0xcreated'',
               log_topic1 =
                 Some ''0x0000000000000000000000001111111111111111111111111111111111111111'',
               log_topic2 = None, log_topic3 = None, log_data = ''0x'',
               log_transactionHash = ''0x1''\<rparr>,
             \<lparr>log_id = ''0xa-1'', log_chainId = 1, log_blockHash = ''0xa'', log_blockNumber = 7,
               log_logIndex = 1, log_address = ''0xfac'', log_topic0 = Some ''0xcreated'',
               log_topic1 =
                 Some ''0x0000000000000000000000002222222222222222222222222222222222222222'',
               log_topic2 = None, log_topic3 = None, log_data = ''0x'',
               log_transactionHash = ''0x1''\<rparr>],
     rpcRequestResults = [],
     logFilters = [], logFilterIntervals = [], factories = [], factoryLogFilterIntervals = []\<rparr>"

definition exampleFactory :: factoryCriteria where
  "exampleFactory = \<lparr>fc_address = ''0xfac'', fc_eventSelector = ''0xcreated'',
                      fc_childAddressLocation = Topic1\<rparr>"

section \<open>Sync gateway\<close>

text \<open>
  Modelled from the spec: the Sync Gateway service (\<^verbatim>\<open>sync-gateway/service.ts\<close>), of
  which only the test file is among the sources. Per chain it keeps the historical,
  realtime and finality checkpoints and the flag \<open>isHistoricalComplete\<close>, all
  defaulting to the zero checkpoint and false; globally it keeps the checkpoint, the
  finality checkpoint and, in the model, the list of the events emitted so far. The
  chains are those the gateway was constructed with.
\<close>

record networkCheckpoints =
  isHistoricalSyncComplete :: bool
  historicalCheckpoint :: checkpoint
  realtimeCheckpoint :: checkpoint
  finalityCheckpoint :: checkpoint

datatype gatewayEvent =
  NewCheckpoint checkpoint | NewFinalityCheckpoint checkpoint | Reorg checkpoint

record syncGateway =
  gw_chains :: "nat list"
  gw_networkCheckpoints :: "nat \<Rightarrow> networkCheckpoints"
  gw_checkpoint :: checkpoint
  gw_finalityCheckpoint :: checkpoint
  gw_emitted :: "gatewayEvent list"

definition defaultNetworkCheckpoints :: networkCheckpoints where
  "defaultNetworkCheckpoints =
     \<lparr>isHistoricalSyncComplete = False, historicalCheckpoint = zeroCheckpoint,
      realtimeCheckpoint = zeroCheckpoint, finalityCheckpoint = zeroCheckpoint\<rparr>"

definition newSyncGateway :: "nat list \<Rightarrow> syncGateway" where
  "newSyncGateway networks =
     \<lparr>gw_chains = networks, gw_networkCheckpoints = (\<lambda>_. defaultNetworkCheckpoints),
      gw_checkpoint = zeroCheckpoint, gw_finalityCheckpoint = zeroCheckpoint, gw_emitted = []\<rparr>"

text \<open>The reducer of the spec:
  \<^verbatim>\<open>perChainBest[i] = isHistoricalComplete[i] ? max(historical[i], realtime[i]) : historical[i]\<close>,
  \<^verbatim>\<open>global.checkpoint = min over all chains of perChainBest[i]\<close>, and the emission rule:
  compute the new value, emit only if it is strictly greater than the previous one.\<close>

definition perChainBest :: "networkCheckpoints \<Rightarrow> checkpoint" where
  "perChainBest n =
     (if isHistoricalSyncComplete n
      then checkpointMax (historicalCheckpoint n) (realtimeCheckpoint n)
      else historicalCheckpoint n)"

definition recomputedCheckpoint :: "syncGateway \<Rightarrow> checkpoint option" where
  "recomputedCheckpoint gw =
     checkpointMin (map (\<lambda>c. perChainBest (gw_networkCheckpoints gw c)) (gw_chains gw))"

definition recalculateCheckpoint :: "syncGateway \<Rightarrow> syncGateway" where
  "recalculateCheckpoint gw =
     (case recomputedCheckpoint gw of
        None \<Rightarrow> gw
      | Some newCheckpoint \<Rightarrow>
          if isCheckpointGreaterThan newCheckpoint (gw_checkpoint gw)
          then gw\<lparr>gw_checkpoint := newCheckpoint,
                  gw_emitted := gw_emitted gw @ [NewCheckpoint newCheckpoint]\<rparr>
          else gw)"

definition recalculateFinalityCheckpoint :: "syncGateway \<Rightarrow> syncGateway" where
  "recalculateFinalityCheckpoint gw =
     (case checkpointMin (map (\<lambda>c. finalityCheckpoint (gw_networkCheckpoints gw c)) (gw_chains gw)) of
        None \<Rightarrow> gw
      | Some newFinalityCheckpoint \<Rightarrow>
          if isCheckpointGreaterThan newFinalityCheckpoint (gw_finalityCheckpoint gw)
          then gw\<lparr>gw_finalityCheckpoint := newFinalityCheckpoint,
                  gw_emitted := gw_emitted gw @ [NewFinalityCheckpoint newFinalityCheckpoint]\<rparr>
          else gw)"

definition handleNewHistoricalCheckpoint :: "checkpoint \<Rightarrow> syncGateway \<Rightarrow> syncGateway" where
  "handleNewHistoricalCheckpoint c gw =
     (let n = gw_networkCheckpoints gw (chainId c)
      in recalculateCheckpoint
           (if isCheckpointGreaterThan c (historicalCheckpoint n)
            then gw\<lparr>gw_networkCheckpoints :=
                      (gw_networkCheckpoints gw)(chainId c := n\<lparr>historicalCheckpoint := c\<rparr>)\<rparr>
            else gw))"

definition handleHistoricalSyncComplete :: "nat \<Rightarrow> syncGateway \<Rightarrow> syncGateway" where
  "handleHistoricalSyncComplete cid gw =
     recalculateCheckpoint
       (gw\<lparr>gw_networkCheckpoints :=
             (gw_networkCheckpoints gw)
               (cid := (gw_networkCheckpoints gw cid)\<lparr>isHistoricalSyncComplete := True\<rparr>)\<rparr>)"

definition handleNewRealtimeCheckpoint :: "checkpoint \<Rightarrow> syncGateway \<Rightarrow> syncGateway" where
  "handleNewRealtimeCheckpoint c gw =
     (let n = gw_networkCheckpoints gw (chainId c)
      in recalculateCheckpoint
           (if isCheckpointGreaterThan c (realtimeCheckpoint n)
            then gw\<lparr>gw_networkCheckpoints :=
                      (gw_networkCheckpoints gw)(chainId c := n\<lparr>realtimeCheckpoint := c\<rparr>)\<rparr>
            else gw))"

definition handleNewFinalityCheckpoint :: "checkpoint \<Rightarrow> syncGateway \<Rightarrow> syncGateway" where
  "handleNewFinalityCheckpoint c gw =
     (let n = gw_networkCheckpoints gw (chainId c)
      in recalculateFinalityCheckpoint
           (if isCheckpointGreaterThan c (finalityCheckpoint n)
            then gw\<lparr>gw_networkCheckpoints :=
                      (gw_networkCheckpoints gw)(chainId c := n\<lparr>finalityCheckpoint := c\<rparr>)\<rparr>
            else gw))"

definition gatewayHandleReorg :: "checkpoint \<Rightarrow> syncGateway \<Rightarrow> syncGateway" where
  "gatewayHandleReorg safeCheckpoint gw =
     gw\<lparr>gw_emitted := gw_emitted gw @ [Reorg safeCheckpoint]\<rparr>"

definition resetCheckpoints :: "nat \<Rightarrow> syncGateway \<Rightarrow> syncGateway" where
  "resetCheckpoints cid gw =
     gw\<lparr>gw_networkCheckpoints := (gw_networkCheckpoints gw)(cid := defaultNetworkCheckpoints),
        gw_checkpoint := zeroCheckpoint, gw_finalityCheckpoint := zeroCheckpoint\<rparr>"

text \<open>The inputs of the gateway, and a run over a sequence of inputs.\<close>

datatype gatewayInput =
    HistoricalCheckpoint checkpoint
  | HistoricalSyncComplete nat
  | RealtimeCheckpoint checkpoint
  | FinalityCheckpoint checkpoint
  | ReorgSignal checkpoint
  | ResetCheckpoints nat

fun gatewayStep :: "gatewayInput \<Rightarrow> syncGateway \<Rightarrow> syncGateway" where
  "gatewayStep (HistoricalCheckpoint c) gw = handleNewHistoricalCheckpoint c gw"
| "gatewayStep (HistoricalSyncComplete cid) gw = handleHistoricalSyncComplete cid gw"
| "gatewayStep (RealtimeCheckpoint c) gw = handleNewRealtimeCheckpoint c gw"
| "gatewayStep (FinalityCheckpoint c) gw = handleNewFinalityCheckpoint c gw"
| "gatewayStep (ReorgSignal c) gw = gatewayHandleReorg c gw"
| "gatewayStep (ResetCheckpoints cid) gw = resetCheckpoints cid gw"

definition gatewayRun :: "gatewayInput list \<Rightarrow> syncGateway \<Rightarrow> syncGateway" where
  "gatewayRun inputs gw = fold gatewayStep inputs gw"

fun inputChain :: "gatewayInput \<Rightarrow> nat" where
  "inputChain (HistoricalCheckpoint c) = chainId c"
| "inputChain (HistoricalSyncComplete cid) = cid"
| "inputChain (RealtimeCheckpoint c) = chainId c"
| "inputChain (FinalityCheckpoint c) = chainId c"
| "inputChain (ReorgSignal c) = chainId c"
| "inputChain (ResetCheckpoints cid) = cid"

fun isReset :: "gatewayInput \<Rightarrow> bool" where
  "isReset (ResetCheckpoints _) = True"
| "isReset _ = False"

fun newCheckpoints :: "gatewayEvent list \<Rightarrow> checkpoint list" where
  "newCheckpoints [] = []"
| "newCheckpoints (NewCheckpoint c # es) = c # newCheckpoints es"
| "newCheckpoints (_ # es) = newCheckpoints es"

text \<open>The \<open>newCheckpoint\<close> values emitted between two states of a run.\<close>

definition newCheckpointsSince :: "syncGateway \<Rightarrow> syncGateway \<Rightarrow> checkpoint list" where
  "newCheckpointsSince gw0 gw =
     drop (length (newCheckpoints (gw_emitted gw0))) (newCheckpoints (gw_emitted gw))"

section \<open>Indexing service: state\<close>

text \<open>
  The per-function state of \<^verbatim>\<open>IndexingService\<close>, a buffered log event task, and the
  part of the service that the scheduler operations read and write. The map
  \<^verbatim>\<open>indexingFunctionStates\<close> is a JavaScript object: an association list in key order
  with pairwise different keys. The worker queue is the list of tasks added and not yet
  taken by a worker. Calls that leave the service (the user's indexing function, the
  entity store's \<^verbatim>\<open>revert\<close>, emitted events) are recorded in order in \<open>effects\<close>.
  Logger calls and the duration and count metrics are not modelled.
\<close>

datatype sourceCriteria = LogFilterSource logFilterCriteria | FactorySource factoryCriteria

record source =
  src_id :: string
  src_contractName :: string
  src_chainId :: nat
  src_criteria :: sourceCriteria
  src_startBlock :: nat
  src_endBlock :: "nat option"
  src_abiEvents :: "(string \<times> string \<times> string) list"

record logEventTask =
  task_networkName :: string
  task_contractName :: string
  task_eventName :: string
  task_args :: string
  task_event :: logEvent
  task_checkpoint :: checkpoint
  task_eventsProcessed :: "nat option"

record setupTask =
  setup_networkName :: string
  setup_contractName :: string
  setup_checkpoint :: checkpoint

datatype indexingFunctionTask = SETUP setupTask | LOG logEventTask

record indexingFunctionState =
  contractName :: string
  eventName :: string
  parents :: "string list"
  isSelfDependent :: bool
  sources :: "source list"
  abiEvent :: string
  eventSelector :: string
  tasksProcessedToCheckpoint :: checkpoint
  tasksLoadedFromCheckpoint :: checkpoint
  tasksLoadedToCheckpoint :: checkpoint
  loadedTasks :: "logEventTask list"
  firstEventCheckpoint :: "checkpoint option"
  lastEventCheckpoint :: "checkpoint option"
  eventCount :: nat

datatype indexingEvent = EventsProcessed checkpoint | ErrorEvent

datatype effect =
    InvokeIndexingFunction string checkpoint
  | Revert checkpoint
  | Emit indexingEvent

record indexingService =
  isPaused :: bool
  queue :: "indexingFunctionTask list"
  queueIsPaused :: bool
  indexingFunctionStates :: "(string \<times> indexingFunctionState) list"
  effects :: "effect list"
  ponder_indexing_has_error :: nat
  ponder_indexing_completed_timestamp :: nat

definition getState :: "indexingService \<Rightarrow> string \<Rightarrow> indexingFunctionState option" where
  "getState svc key = map_of (indexingFunctionStates svc) key"

definition setState :: "string \<Rightarrow> indexingFunctionState \<Rightarrow> indexingService \<Rightarrow> indexingService" where
  "setState key state svc =
     svc\<lparr>indexingFunctionStates := AList.update key state (indexingFunctionStates svc)\<rparr>"





section \<open>Indexing service: handleReorg\<close>

text \<open>
  \<^verbatim>\<open>handleReorg(safeCheckpoint)\<close>, the body that runs under the loading mutex. The
  entity store's \<^verbatim>\<open>revert\<close> is an external call, recorded as an effect and taken to
  return normally. Cancellation of the mutex is outside the model.
\<close>

definition clampState :: "checkpoint \<Rightarrow> indexingFunctionState \<Rightarrow> indexingFunctionState" where
  "clampState safeCheckpoint state =
     (let s1 = (if isCheckpointGreaterThan (tasksProcessedToCheckpoint state) safeCheckpoint
                then state\<lparr>tasksProcessedToCheckpoint := safeCheckpoint\<rparr> else state);
          s2 = (if isCheckpointGreaterThan (tasksLoadedFromCheckpoint s1) safeCheckpoint
                then s1\<lparr>tasksLoadedFromCheckpoint := safeCheckpoint\<rparr> else s1);
          s3 = (if isCheckpointGreaterThan (tasksLoadedToCheckpoint s2) safeCheckpoint
                then s2\<lparr>tasksLoadedToCheckpoint := safeCheckpoint\<rparr> else s2)
      in s3)"

definition handleReorg :: "checkpoint \<Rightarrow> indexingService \<Rightarrow> indexingService" where
  "handleReorg safeCheckpoint svc =
     (let hasProcessedInvalidEvents =
            list_ex (\<lambda>(key, state).
                       isCheckpointGreaterThan (tasksProcessedToCheckpoint state) safeCheckpoint)
              (indexingFunctionStates svc)
      in if \<not> hasProcessedInvalidEvents then svc
         else svc\<lparr>effects := effects svc @ [Revert safeCheckpoint],
                  ponder_indexing_completed_timestamp := blockTimestamp safeCheckpoint,
                  indexingFunctionStates :=
                    map (\<lambda>(key, state). (key, clampState safeCheckpoint state))
                      (indexingFunctionStates svc)\<rparr>)"

section \<open>Indexing service: enqueueLogEventTasks\<close>







section \<open>Indexing service: executeLogEventTask\<close>

text \<open>
  The user's indexing function is code outside the service. One call either returns or
  throws: \<open>Throws True\<close> is a \<^verbatim>\<open>NonRetryableError\<close>, \<open>Throws False\<close> any other error.
  The function is given by the outcome of each of its calls, numbered from 0 in the
  order in which the task makes them. Each call is recorded as an effect. The entity
  store's \<^verbatim>\<open>revert\<close> is recorded as an effect and taken to return normally. Loggers,
  the duration, count and seconds metrics and the \<^verbatim>\<open>meta\<close> text of the error are not
  modelled.
\<close>

datatype attemptResult = Returns | Throws bool

definition fullEventName :: "logEventTask \<Rightarrow> string" where
  "fullEventName data = task_contractName data @ '':'' @ task_eventName data"






text \<open>
  What the retry policy says of a task, in terms of the outcomes of the calls: an
  attempt succeeds when the indexing function returns and the function state is there
  to be updated; it fails retryably when the error is not a \<^verbatim>\<open>NonRetryableError\<close>.
  \<open>retries\<close> counts the retryable failures in front of the first three attempts, and
  \<open>retryTrace\<close> is the sequence of calls that goes with them: each failed call followed
  by a revert to the checkpoint of the task, then one more call.
\<close>

definition attemptSucceeds ::
  "(nat \<Rightarrow> attemptResult) \<Rightarrow> logEventTask \<Rightarrow> indexingService \<Rightarrow> nat \<Rightarrow> bool" where
  "attemptSucceeds indexingFunction data svc n =
     (indexingFunction n = Returns \<and> getState svc (fullEventName data) \<noteq> None)"

definition attemptFailsRetryably ::
  "(nat \<Rightarrow> attemptResult) \<Rightarrow> logEventTask \<Rightarrow> indexingService \<Rightarrow> nat \<Rightarrow> bool" where
  "attemptFailsRetryably indexingFunction data svc n =
     (indexingFunction n = Throws False \<or>
      (indexingFunction n = Returns \<and> getState svc (fullEventName data) = None))"



section \<open>Example stores, schedulers and invariants\<close>


definition exampleState ::
  "string \<Rightarrow> string list \<Rightarrow> checkpoint \<Rightarrow> checkpoint \<Rightarrow> checkpoint \<Rightarrow> logEventTask list \<Rightarrow>
   indexingFunctionState" where
  "exampleState contract ps processed loadedFrom loadedTo tasks =
     \<lparr>contractName = contract, eventName = ''Transfer'', parents = ps,
      isSelfDependent = False, sources = [], abiEvent = ''Transfer(address,address,uint256)'',
      eventSelector = ''0xe'',
      tasksProcessedToCheckpoint = processed, tasksLoadedFromCheckpoint = loadedFrom,
      tasksLoadedToCheckpoint = loadedTo, loadedTasks = tasks,
      firstEventCheckpoint = None, lastEventCheckpoint = None, eventCount = 0\<rparr>"

definition exampleService :: "(string \<times> indexingFunctionState) list \<Rightarrow> indexingService" where
  "exampleService states =
     \<lparr>isPaused = False, queue = [], queueIsPaused = False, indexingFunctionStates = states,
      effects = [], ponder_indexing_has_error = 0, ponder_indexing_completed_timestamp = 0\<rparr>"



definition reorgScheduler :: indexingService where
  "reorgScheduler =
     exampleService
       [(''A:Transfer'', exampleState ''A'' [] (Checkpoint 100 1 1000 (Some 5))
            (Checkpoint 100 1 1000 (Some 5)) (Checkpoint 100 1 1000 (Some 5)) []),
        (''B:Transfer'', exampleState ''B'' [''A:Transfer''] (Checkpoint 100 1 1000 (Some 5))
            (Checkpoint 100 1 1000 (Some 5)) (Checkpoint 100 1 1000 (Some 5)) [])]"

text \<open>The invariant of the gateway: the global checkpoint is the reduced value.\<close>

definition gatewayInv :: "syncGateway \<Rightarrow> bool" where
  "gatewayInv gw = (recomputedCheckpoint gw = Some (gw_checkpoint gw))"

text \<open>
  Two conditions on a store under which no two result rows share a checkpoint. The
  first is what the tables' keys enforce: block hashes and transaction hashes are
  unique, and a log is identified by chain, block hash and log index. The second is
  kept by the callers only (a reorged range is deleted before it is written again):
  a log lives on the chain of its block, and the store holds one block per chain and
  height.
\<close>

definition uniqueKeys :: "syncStore \<Rightarrow> bool" where
  "uniqueKeys db =
     (distinct (map block_hash (blocks db)) \<and>
      distinct (map tx_hash (transactions db)) \<and>
      distinct (map (\<lambda>l. (log_chainId l, log_blockHash l, log_logIndex l)) (logs db)))"

definition oneBlockPerHeight :: "syncStore \<Rightarrow> bool" where
  "oneBlockPerHeight db =
     ((\<forall>l \<in> set (logs db). \<forall>b \<in> set (blocks db).
         block_hash b = log_blockHash l \<longrightarrow> block_chainId b = log_chainId l) \<and>
      (\<forall>b \<in> set (blocks db). \<forall>b' \<in> set (blocks db).
         block_chainId b = block_chainId b' \<and> block_number b = block_number b' \<longrightarrow> b = b'))"

text \<open>A store that holds two sibling blocks of chain 1 at height 5 with the same
  timestamp (both sides of a fork), each with a log at index 0 of the same contract
  and event; and a filter for that contract and event.\<close>

definition forkStore :: syncStore where
  "forkStore = \<lparr>
     blocks = [\<lparr>block_hash = ''0xa'', block_chainId = 1, block_number = 5, block_timestamp = 100\<rparr>,
               \<lparr>block_hash = ''0xb'', block_chainId = 1, block_number = 5, block_timestamp = 100\<rparr>],
     transactions = [\<lparr>tx_hash = ''0x1'', tx_chainId = 1, tx_blockNumber = 5\<rparr>,
                     \<lparr>tx_hash = ''0x2'', tx_chainId = 1, tx_blockNumber = 5\<rparr>],
     logs = [\<lparr>log_id = ''0xa-0'', log_chainId = 1, log_blockHash = ''0xa'', log_blockNumber = 5,
               log_logIndex = 0, log_address = ''0xf'', log_topic0 = Some ''0xe'',
               log_topic1 = None, log_topic2 = None, log_topic3 = None, log_data = ''0x'',
               log_transactionHash = ''0x1''\<rparr>,
             \<lparr>log_id = ''0xb-0'', log_chainId = 1, log_blockHash = ''0xb'', log_blockNumber = 5,
               log_logIndex = 0, log_address = ''0xf'', log_topic0 = Some ''0xe'',
               log_topic1 = None, log_topic2 = None, log_topic3 = None, log_data = ''0x'',
               log_transactionHash = ''0x2''\<rparr>],
     rpcRequestResults = [],
     logFilters = [], logFilterIntervals = [], factories = [], factoryLogFilterIntervals = []\<rparr>"

definition exampleSources :: eventSources where
  "exampleSources =
     LogFilters [\<lparr>lfa_id = ''Erc20_mainnet'', lfa_chainId = 1,
                   lfa_criteria = \<lparr>crit_address = Some (One ''0xf''), crit_topics = None\<rparr>,
                   lfa_fromBlock = None, lfa_toBlock = None, lfa_eventSelector = ''0xe''\<rparr>]"

text \<open>The page that \<open>getLogEvents\<close> returns on the fork store for the window from
  the zero checkpoint to the end of block 10 of chain 1 at time 200: both sibling
  logs, at the same checkpoint.\<close>

definition forkPage :: logEventsPage where
  "forkPage = \<lparr>
     events = [\<lparr>ev_chainId = 1, ev_log = logs forkStore ! 0, ev_block = blocks forkStore ! 0,
                 ev_transaction = transactions forkStore ! 0\<rparr>,
               \<lparr>ev_chainId = 1, ev_log = logs forkStore ! 1, ev_block = blocks forkStore ! 1,
                 ev_transaction = transactions forkStore ! 1\<rparr>],
     hasNextPage = False,
     lastCheckpointInPage = None,
     lastCheckpoint = Some (Checkpoint 100 1 5 (Some 0))\<rparr>"

text \<open>A small store used to instantiate the theorems about the sync store: two chains
  (1 and 10), blocks on both sides of block 10, and interval rows of a filter of each
  chain, one of them straddling block 10.\<close>

definition exampleStore :: syncStore where
  "exampleStore = \<lparr>
     blocks = [\<lparr>block_hash = ''0xa'', block_chainId = 1, block_number = 9, block_timestamp = 90\<rparr>,
               \<lparr>block_hash = ''0xb'', block_chainId = 1, block_number = 12, block_timestamp = 120\<rparr>,
               \<lparr>block_hash = ''0xc'', block_chainId = 10, block_number = 50, block_timestamp = 100\<rparr>],
     transactions = [\<lparr>tx_hash = ''0x1'', tx_chainId = 1, tx_blockNumber = 9\<rparr>,
                     \<lparr>tx_hash = ''0x2'', tx_chainId = 1, tx_blockNumber = 12\<rparr>,
                     \<lparr>tx_hash = ''0x3'', tx_chainId = 10, tx_blockNumber = 50\<rparr>],
     logs = [\<lparr>log_id = ''0xa-0'', log_chainId = 1, log_blockHash = ''0xa'', log_blockNumber = 9,
               log_logIndex = 0, log_address = ''0xf'', log_topic0 = Some ''0xe'',
               log_topic1 = None, log_topic2 = None, log_topic3 = None, log_data = ''0x'',
               log_transactionHash = ''0x1''\<rparr>,
             \<lparr>log_id = ''0xb-0'', log_chainId = 1, log_blockHash = ''0xb'', log_blockNumber = 12,
               log_logIndex = 0, log_address = ''0xf'', log_topic0 = Some ''0xe'',
               log_topic1 = None, log_topic2 = None, log_topic3 = None, log_data = ''0x'',
               log_transactionHash = ''0x2''\<rparr>,
             \<lparr>log_id = ''0xc-0'', log_chainId = 10, log_blockHash = ''0xc'', log_blockNumber = 50,
               log_logIndex = 0, log_address = ''0xf'', log_topic0 = Some ''0xe'',
               log_topic1 = None, log_topic2 = None, log_topic3 = None, log_data = ''0x'',
               log_transactionHash = ''0x3''\<rparr>],
     rpcRequestResults =
            [\<lparr>rpc_request = ''r1'', rpc_blockNumber = 9, rpc_chainId = 1, rpc_result = ''0x''\<rparr>,
             \<lparr>rpc_request = ''r2'', rpc_blockNumber = 12, rpc_chainId = 1, rpc_result = ''0x''\<rparr>,
             \<lparr>rpc_request = ''r3'', rpc_blockNumber = 50, rpc_chainId = 10, rpc_result = ''0x''\<rparr>],
     logFilters = [\<lparr>lf_id = ''f1'', lf_chainId = 1, lf_address = Some ''0xf'', lf_topic0 = None,
                     lf_topic1 = None, lf_topic2 = None, lf_topic3 = None\<rparr>,
                   \<lparr>lf_id = ''f10'', lf_chainId = 10, lf_address = Some ''0xf'', lf_topic0 = None,
                     lf_topic1 = None, lf_topic2 = None, lf_topic3 = None\<rparr>],
     logFilterIntervals =
            [\<lparr>lfi_logFilterId = ''f1'', lfi_startBlock = 0, lfi_endBlock = 8\<rparr>,
             \<lparr>lfi_logFilterId = ''f1'', lfi_startBlock = 9, lfi_endBlock = 12\<rparr>,
             \<lparr>lfi_logFilterId = ''f1'', lfi_startBlock = 13, lfi_endBlock = 20\<rparr>,
             \<lparr>lfi_logFilterId = ''f10'', lfi_startBlock = 40, lfi_endBlock = 50\<rparr>],
     factories = [\<lparr>fac_id = ''g1'', fac_chainId = 1, fac_address = ''0xf'',
                    fac_eventSelector = ''0xe'', fac_childAddressLocation = ''topic1'',
                    fac_topic0 = None, fac_topic1 = None, fac_topic2 = None, fac_topic3 = None\<rparr>,
                  \<lparr>fac_id = ''g10'', fac_chainId = 10, fac_address = ''0xf'',
                    fac_eventSelector = ''0xe'', fac_childAddressLocation = ''topic1'',
                    fac_topic0 = None, fac_topic1 = None, fac_topic2 = None, fac_topic3 = None\<rparr>],
     factoryLogFilterIntervals =
            [\<lparr>fli_factoryId = ''g1'', fli_startBlock = 5, fli_endBlock = 15\<rparr>,
             \<lparr>fli_factoryId = ''g1'', fli_startBlock = 16, fli_endBlock = 20\<rparr>,
             \<lparr>fli_factoryId = ''g10'', fli_startBlock = 40, fli_endBlock = 50\<rparr>]\<rparr>"

text \<open>The page that \<open>getLogEvents\<close> returns on the example store for the same window:
  the two logs of chain 1.\<close>

definition examplePage :: logEventsPage where
  "examplePage = \<lparr>
     events = [\<lparr>ev_chainId = 1, ev_log = logs exampleStore ! 0, ev_block = blocks exampleStore ! 0,
                 ev_transaction = transactions exampleStore ! 0\<rparr>,
               \<lparr>ev_chainId = 1, ev_log = logs exampleStore ! 1, ev_block = blocks exampleStore ! 1,
                 ev_transaction = transactions exampleStore ! 1\<rparr>],
     hasNextPage = False,
     lastCheckpointInPage = None,
     lastCheckpoint = Some (Checkpoint 120 1 12 (Some 0))\<rparr>"

section \<open>Verification: checkpoint order\<close>

lemma zeroCheckpoint_least: "zeroCheckpoint \<le> c"
  by (cases c; cases "logIndex c")
     (auto simp: zeroCheckpoint_def less_eq_checkpoint_def less_checkpoint_def)

section \<open>Verification: deleteRealtimeData\<close>

lemma logFilterInterval_chainId_cong:
  "logFilters db' = logFilters db \<Longrightarrow> lfi_logFilterId r' = lfi_logFilterId r \<Longrightarrow>
   logFilterInterval_chainId db' r' = logFilterInterval_chainId db r"
  by (simp add: logFilterInterval_chainId_def)

lemma factoryLogFilterInterval_chainId_cong:
  "factories db' = factories db \<Longrightarrow> fli_factoryId r' = fli_factoryId r \<Longrightarrow>
   factoryLogFilterInterval_chainId db' r' = factoryLogFilterInterval_chainId db r"
  by (simp add: factoryLogFilterInterval_chainId_def)

lemma deleteRealtimeData_blocks:
  "blocks (deleteRealtimeData cid n db) =
     filter (\<lambda>b. \<not> (block_chainId b = cid \<and> block_number b > n)) (blocks db)"
  by (simp add: deleteRealtimeData_def Let_def)

lemma deleteRealtimeData_transactions:
  "transactions (deleteRealtimeData cid n db) =
     filter (\<lambda>t. \<not> (tx_chainId t = cid \<and> tx_blockNumber t > n)) (transactions db)"
  by (simp add: deleteRealtimeData_def Let_def)

lemma deleteRealtimeData_logs:
  "logs (deleteRealtimeData cid n db) =
     filter (\<lambda>l. \<not> (log_chainId l = cid \<and> log_blockNumber l > n)) (logs db)"
  by (simp add: deleteRealtimeData_def Let_def)

lemma deleteRealtimeData_rpcRequestResults:
  "rpcRequestResults (deleteRealtimeData cid n db) =
     filter (\<lambda>r. \<not> (rpc_chainId r = cid \<and> rpc_blockNumber r > n)) (rpcRequestResults db)"
  by (simp add: deleteRealtimeData_def Let_def)

lemma deleteRealtimeData_logFilters:
  "logFilters (deleteRealtimeData cid n db) = logFilters db"
  by (simp add: deleteRealtimeData_def Let_def)

lemma deleteRealtimeData_factories:
  "factories (deleteRealtimeData cid n db) = factories db"
  by (simp add: deleteRealtimeData_def Let_def)

lemma deleteRealtimeData_logFilterIntervals:
  "logFilterIntervals (deleteRealtimeData cid n db) =
     map (\<lambda>r. if logFilterInterval_chainId db r = Some cid \<and> lfi_endBlock r > n
               then r\<lparr>lfi_endBlock := n\<rparr> else r)
       (filter (\<lambda>r. \<not> (logFilterInterval_chainId db r = Some cid \<and> lfi_startBlock r > n))
          (logFilterIntervals db))"
  by (simp add: deleteRealtimeData_def Let_def logFilterInterval_chainId_def)

lemma deleteRealtimeData_factoryLogFilterIntervals:
  "factoryLogFilterIntervals (deleteRealtimeData cid n db) =
     map (\<lambda>r. if factoryLogFilterInterval_chainId db r = Some cid \<and> fli_endBlock r > n
               then r\<lparr>fli_endBlock := n\<rparr> else r)
       (filter (\<lambda>r. \<not> (factoryLogFilterInterval_chainId db r = Some cid \<and> fli_startBlock r > n))
          (factoryLogFilterIntervals db))"
  by (simp add: deleteRealtimeData_def Let_def factoryLogFilterInterval_chainId_def)

text \<open>
  Claim C8. \<open>deleteRealtimeData cid n\<close> deletes from the blocks, transactions, logs and
  rpcRequestResults tables exactly the rows of chain \<open>cid\<close> with a block number above \<open>n\<close>.
  From logFilterIntervals and factoryLogFilterIntervals it deletes exactly the rows of
  chain \<open>cid\<close> with startBlock \<open>> n\<close>, and each remaining row of chain \<open>cid\<close> with endBlock
  \<open>> n\<close> gets endBlock \<open>n\<close>; every other row, and the logFilters and factories tables, stay
  as they are. So afterwards no data row of chain \<open>cid\<close> has a block number above \<open>n\<close>, and
  every interval row whose filter (factory) belongs to chain \<open>cid\<close> has startBlock \<open>\<le> n\<close>
  and endBlock \<open>\<le> n\<close>.
\<close>

theorem deleteRealtimeData_upper_bound:
  assumes "db' = deleteRealtimeData cid n db"
  shows "blocks db' =
           filter (\<lambda>b. \<not> (block_chainId b = cid \<and> block_number b > n)) (blocks db) \<and>
         transactions db' =
           filter (\<lambda>t. \<not> (tx_chainId t = cid \<and> tx_blockNumber t > n)) (transactions db) \<and>
         logs db' =
           filter (\<lambda>l. \<not> (log_chainId l = cid \<and> log_blockNumber l > n)) (logs db) \<and>
         rpcRequestResults db' =
           filter (\<lambda>r. \<not> (rpc_chainId r = cid \<and> rpc_blockNumber r > n)) (rpcRequestResults db) \<and>
         logFilters db' = logFilters db \<and>
         factories db' = factories db \<and>
         logFilterIntervals db' =
           map (\<lambda>r. if logFilterInterval_chainId db r = Some cid \<and> lfi_endBlock r > n
                     then r\<lparr>lfi_endBlock := n\<rparr> else r)
             (filter (\<lambda>r. \<not> (logFilterInterval_chainId db r = Some cid \<and> lfi_startBlock r > n))
                (logFilterIntervals db)) \<and>
         factoryLogFilterIntervals db' =
           map (\<lambda>r. if factoryLogFilterInterval_chainId db r = Some cid \<and> fli_endBlock r > n
                     then r\<lparr>fli_endBlock := n\<rparr> else r)
             (filter (\<lambda>r. \<not> (factoryLogFilterInterval_chainId db r = Some cid \<and>
                             fli_startBlock r > n))
                (factoryLogFilterIntervals db)) \<and>
         (\<forall>b \<in> set (blocks db'). block_chainId b = cid \<longrightarrow> block_number b \<le> n) \<and>
         (\<forall>t \<in> set (transactions db'). tx_chainId t = cid \<longrightarrow> tx_blockNumber t \<le> n) \<and>
         (\<forall>l \<in> set (logs db'). log_chainId l = cid \<longrightarrow> log_blockNumber l \<le> n) \<and>
         (\<forall>r \<in> set (rpcRequestResults db'). rpc_chainId r = cid \<longrightarrow> rpc_blockNumber r \<le> n) \<and>
         (\<forall>r \<in> set (logFilterIntervals db'). logFilterInterval_chainId db' r = Some cid \<longrightarrow>
             lfi_startBlock r \<le> n \<and> lfi_endBlock r \<le> n) \<and>
         (\<forall>r \<in> set (factoryLogFilterIntervals db').
             factoryLogFilterInterval_chainId db' r = Some cid \<longrightarrow>
             fli_startBlock r \<le> n \<and> fli_endBlock r \<le> n)"
proof -
  have eff: "blocks db' =
           filter (\<lambda>b. \<not> (block_chainId b = cid \<and> block_number b > n)) (blocks db)"
         "transactions db' =
           filter (\<lambda>t. \<not> (tx_chainId t = cid \<and> tx_blockNumber t > n)) (transactions db)"
         "logs db' =
           filter (\<lambda>l. \<not> (log_chainId l = cid \<and> log_blockNumber l > n)) (logs db)"
         "rpcRequestResults db' =
           filter (\<lambda>r. \<not> (rpc_chainId r = cid \<and> rpc_blockNumber r > n)) (rpcRequestResults db)"
         "logFilters db' = logFilters db"
         "factories db' = factories db"
         "logFilterIntervals db' =
           map (\<lambda>r. if logFilterInterval_chainId db r = Some cid \<and> lfi_endBlock r > n
                     then r\<lparr>lfi_endBlock := n\<rparr> else r)
             (filter (\<lambda>r. \<not> (logFilterInterval_chainId db r = Some cid \<and> lfi_startBlock r > n))
                (logFilterIntervals db))"
         "factoryLogFilterIntervals db' =
           map (\<lambda>r. if factoryLogFilterInterval_chainId db r = Some cid \<and> fli_endBlock r > n
                     then r\<lparr>fli_endBlock := n\<rparr> else r)
             (filter (\<lambda>r. \<not> (factoryLogFilterInterval_chainId db r = Some cid \<and>
                             fli_startBlock r > n))
                (factoryLogFilterIntervals db))"
    unfolding assms
    by (rule deleteRealtimeData_blocks deleteRealtimeData_transactions deleteRealtimeData_logs
        deleteRealtimeData_rpcRequestResults deleteRealtimeData_logFilters
        deleteRealtimeData_factories deleteRealtimeData_logFilterIntervals
        deleteRealtimeData_factoryLogFilterIntervals)+
  have data: "(\<forall>b \<in> set (blocks db'). block_chainId b = cid \<longrightarrow> block_number b \<le> n) \<and>
         (\<forall>t \<in> set (transactions db'). tx_chainId t = cid \<longrightarrow> tx_blockNumber t \<le> n) \<and>
         (\<forall>l \<in> set (logs db'). log_chainId l = cid \<longrightarrow> log_blockNumber l \<le> n) \<and>
         (\<forall>r \<in> set (rpcRequestResults db'). rpc_chainId r = cid \<longrightarrow> rpc_blockNumber r \<le> n)"
    unfolding eff by auto
  have lfi: "lfi_startBlock r \<le> n \<and> lfi_endBlock r \<le> n"
    if "r \<in> set (logFilterIntervals db')" "logFilterInterval_chainId db' r = Some cid" for r
  proof -
    from that(1) obtain r0 where r0: "r0 \<in> set (logFilterIntervals db)"
      "\<not> (logFilterInterval_chainId db r0 = Some cid \<and> lfi_startBlock r0 > n)"
      "r = (if logFilterInterval_chainId db r0 = Some cid \<and> lfi_endBlock r0 > n
            then r0\<lparr>lfi_endBlock := n\<rparr> else r0)"
      unfolding eff by auto
    have "lfi_logFilterId r = lfi_logFilterId r0" using r0(3) by simp
    then have "logFilterInterval_chainId db r0 = Some cid"
      using that(2) logFilterInterval_chainId_cong[of db' db r r0] eff(5) by simp
    then show ?thesis using r0 by auto
  qed
  have fli: "fli_startBlock r \<le> n \<and> fli_endBlock r \<le> n"
    if "r \<in> set (factoryLogFilterIntervals db')"
       "factoryLogFilterInterval_chainId db' r = Some cid" for r
  proof -
    from that(1) obtain r0 where r0: "r0 \<in> set (factoryLogFilterIntervals db)"
      "\<not> (factoryLogFilterInterval_chainId db r0 = Some cid \<and> fli_startBlock r0 > n)"
      "r = (if factoryLogFilterInterval_chainId db r0 = Some cid \<and> fli_endBlock r0 > n
            then r0\<lparr>fli_endBlock := n\<rparr> else r0)"
      unfolding eff by auto
    have "fli_factoryId r = fli_factoryId r0" using r0(3) by simp
    then have "factoryLogFilterInterval_chainId db r0 = Some cid"
      using that(2) factoryLogFilterInterval_chainId_cong[of db' db r r0] eff(6) by simp
    then show ?thesis using r0 by auto
  qed
  from lfi fli have iv:
    "(\<forall>r \<in> set (logFilterIntervals db'). logFilterInterval_chainId db' r = Some cid \<longrightarrow>
             lfi_startBlock r \<le> n \<and> lfi_endBlock r \<le> n) \<and>
         (\<forall>r \<in> set (factoryLogFilterIntervals db').
             factoryLogFilterInterval_chainId db' r = Some cid \<longrightarrow>
             fli_startBlock r \<le> n \<and> fli_endBlock r \<le> n)"
    by blast
  show ?thesis
    by (intro conjI) (rule eff conjunct1[OF data] conjunct1[OF conjunct2[OF data]]
        conjunct1[OF conjunct2[OF conjunct2[OF data]]]
        conjunct2[OF conjunct2[OF conjunct2[OF data]]] conjunct1[OF iv] conjunct2[OF iv])+
qed

text \<open>
  On the example store with \<open>cid = 1\<close> and \<open>n = 10\<close>: block 12 and its transaction, log and
  cached request go; the interval \<open>(13, 20)\<close> of filter \<open>f1\<close> and \<open>(16, 20)\<close> of factory \<open>g1\<close>
  are deleted, \<open>(9, 12)\<close> becomes \<open>(9, 10)\<close> and \<open>(5, 15)\<close> becomes \<open>(5, 10)\<close>; the rows of
  chain 10 at block 50 stay.
\<close>

theorem deleteRealtimeData_upper_bound_witness:
  "blocks (deleteRealtimeData 1 10 exampleStore) =
     [\<lparr>block_hash = ''0xa'', block_chainId = 1, block_number = 9, block_timestamp = 90\<rparr>,
      \<lparr>block_hash = ''0xc'', block_chainId = 10, block_number = 50, block_timestamp = 100\<rparr>] \<and>
   transactions (deleteRealtimeData 1 10 exampleStore) =
     [\<lparr>tx_hash = ''0x1'', tx_chainId = 1, tx_blockNumber = 9\<rparr>,
      \<lparr>tx_hash = ''0x3'', tx_chainId = 10, tx_blockNumber = 50\<rparr>] \<and>
   map log_id (logs (deleteRealtimeData 1 10 exampleStore)) = [''0xa-0'', ''0xc-0''] \<and>
   map rpc_request (rpcRequestResults (deleteRealtimeData 1 10 exampleStore)) = [''r1'', ''r3''] \<and>
   logFilterIntervals (deleteRealtimeData 1 10 exampleStore) =
     [\<lparr>lfi_logFilterId = ''f1'', lfi_startBlock = 0, lfi_endBlock = 8\<rparr>,
      \<lparr>lfi_logFilterId = ''f1'', lfi_startBlock = 9, lfi_endBlock = 10\<rparr>,
      \<lparr>lfi_logFilterId = ''f10'', lfi_startBlock = 40, lfi_endBlock = 50\<rparr>] \<and>
   logFilterInterval_chainId (deleteRealtimeData 1 10 exampleStore)
      \<lparr>lfi_logFilterId = ''f1'', lfi_startBlock = 9, lfi_endBlock = 10\<rparr> = Some 1 \<and>
   factoryLogFilterIntervals (deleteRealtimeData 1 10 exampleStore) =
     [\<lparr>fli_factoryId = ''g1'', fli_startBlock = 5, fli_endBlock = 10\<rparr>,
      \<lparr>fli_factoryId = ''g10'', fli_startBlock = 40, fli_endBlock = 50\<rparr>] \<and>
   factoryLogFilterInterval_chainId (deleteRealtimeData 1 10 exampleStore)
      \<lparr>fli_factoryId = ''g1'', fli_startBlock = 5, fli_endBlock = 10\<rparr> = Some 1"
  using deleteRealtimeData_upper_bound[OF refl, of 1 10 exampleStore]
  by (simp add: exampleStore_def logFilterInterval_chainId_def
      factoryLogFilterInterval_chainId_def)

lemma clamp_other_chain:
  assumes "c \<noteq> cid" and "\<And>r. ch (g r) = ch r"
  shows "filter (\<lambda>r. ch r = Some c)
           (map (\<lambda>r. if ch r = Some cid \<and> P r then g r else r)
              (filter (\<lambda>r. \<not> (ch r = Some cid \<and> Q r)) xs)) =
         filter (\<lambda>r. ch r = Some c) xs"
  using assms by (induction xs) auto

text \<open>
  Claim C10. \<open>deleteRealtimeData cid n\<close> changes only rows of chain \<open>cid\<close>: for every other
  chain \<open>c\<close>, the rows of that chain in the blocks, transactions, logs and
  rpcRequestResults tables, and the interval rows whose filter (factory) belongs to
  chain \<open>c\<close>, are the same before and after, whatever their block numbers.
\<close>

theorem deleteRealtimeData_frame:
  assumes "db' = deleteRealtimeData cid n db" and "c \<noteq> cid"
  shows "filter (\<lambda>b. block_chainId b = c) (blocks db') = filter (\<lambda>b. block_chainId b = c) (blocks db) \<and>
         filter (\<lambda>t. tx_chainId t = c) (transactions db') = filter (\<lambda>t. tx_chainId t = c) (transactions db) \<and>
         filter (\<lambda>l. log_chainId l = c) (logs db') = filter (\<lambda>l. log_chainId l = c) (logs db) \<and>
         filter (\<lambda>r. rpc_chainId r = c) (rpcRequestResults db') =
           filter (\<lambda>r. rpc_chainId r = c) (rpcRequestResults db) \<and>
         filter (\<lambda>r. logFilterInterval_chainId db' r = Some c) (logFilterIntervals db') =
           filter (\<lambda>r. logFilterInterval_chainId db r = Some c) (logFilterIntervals db) \<and>
         filter (\<lambda>r. factoryLogFilterInterval_chainId db' r = Some c) (factoryLogFilterIntervals db') =
           filter (\<lambda>r. factoryLogFilterInterval_chainId db r = Some c) (factoryLogFilterIntervals db)"
proof -
  have 1: "filter (\<lambda>b. block_chainId b = c) (blocks db') = filter (\<lambda>b. block_chainId b = c) (blocks db)"
    unfolding assms(1) deleteRealtimeData_blocks using assms(2)
    by (auto intro: filter_cong)
  have 2: "filter (\<lambda>t. tx_chainId t = c) (transactions db') = filter (\<lambda>t. tx_chainId t = c) (transactions db)"
    unfolding assms(1) deleteRealtimeData_transactions using assms(2)
    by (auto intro: filter_cong)
  have 3: "filter (\<lambda>l. log_chainId l = c) (logs db') = filter (\<lambda>l. log_chainId l = c) (logs db)"
    unfolding assms(1) deleteRealtimeData_logs using assms(2)
    by (auto intro: filter_cong)
  have 4: "filter (\<lambda>r. rpc_chainId r = c) (rpcRequestResults db') =
           filter (\<lambda>r. rpc_chainId r = c) (rpcRequestResults db)"
    unfolding assms(1) deleteRealtimeData_rpcRequestResults using assms(2)
    by (auto intro: filter_cong)
  have cid_eq: "logFilterInterval_chainId db' = logFilterInterval_chainId db"
    "factoryLogFilterInterval_chainId db' = factoryLogFilterInterval_chainId db"
    unfolding assms(1)
    by (auto simp: fun_eq_iff logFilterInterval_chainId_def factoryLogFilterInterval_chainId_def
        deleteRealtimeData_logFilters deleteRealtimeData_factories)
  have 5: "filter (\<lambda>r. logFilterInterval_chainId db' r = Some c) (logFilterIntervals db') =
           filter (\<lambda>r. logFilterInterval_chainId db r = Some c) (logFilterIntervals db)"
    unfolding cid_eq unfolding assms(1) deleteRealtimeData_logFilterIntervals
    by (rule clamp_other_chain[OF assms(2)]) (simp add: logFilterInterval_chainId_def)
  have 6: "filter (\<lambda>r. factoryLogFilterInterval_chainId db' r = Some c) (factoryLogFilterIntervals db') =
           filter (\<lambda>r. factoryLogFilterInterval_chainId db r = Some c) (factoryLogFilterIntervals db)"
    unfolding cid_eq unfolding assms(1) deleteRealtimeData_factoryLogFilterIntervals
    by (rule clamp_other_chain[OF assms(2)]) (simp add: factoryLogFilterInterval_chainId_def)
  from 1 2 3 4 5 6 show ?thesis by blast
qed

theorem deleteRealtimeData_frame_witness:
  "(10::nat) \<noteq> 1 \<and>
   filter (\<lambda>b. block_chainId b = 10) (blocks (deleteRealtimeData 1 10 exampleStore)) =
     [\<lparr>block_hash = ''0xc'', block_chainId = 10, block_number = 50, block_timestamp = 100\<rparr>] \<and>
   filter (\<lambda>r. logFilterInterval_chainId (deleteRealtimeData 1 10 exampleStore) r = Some 10)
     (logFilterIntervals (deleteRealtimeData 1 10 exampleStore)) =
     [\<lparr>lfi_logFilterId = ''f10'', lfi_startBlock = 40, lfi_endBlock = 50\<rparr>]"
  using deleteRealtimeData_frame[OF refl, of 10 1 10 exampleStore]
  by (simp add: exampleStore_def logFilterInterval_chainId_def)

section \<open>Verification: getLogEvents\<close>

lemma buildCheckpointCmprs_Gt:
  "buildCheckpointCmprs OpGt c r = Some True \<longleftrightarrow> (\<exists>cp. rowCheckpoint r = Some cp \<and> c < cp)"
  by (cases "jr_block r"; cases c; cases "logIndex c")
     (auto simp: buildCheckpointCmprs_def rowCheckpoint_def sql_and_def sql_or_def
        col_blocks_timestamp_def col_blocks_number_def col_logs_chainId_def col_logs_logIndex_def
        less_checkpoint_def)

lemma buildCheckpointCmprs_Le:
  "buildCheckpointCmprs OpLe c r = Some True \<longleftrightarrow> (\<exists>cp. rowCheckpoint r = Some cp \<and> cp \<le> c)"
  by (cases "jr_block r"; cases c; cases "logIndex c")
     (auto simp: buildCheckpointCmprs_def rowCheckpoint_def sql_and_def sql_or_def
        col_blocks_timestamp_def col_blocks_number_def col_logs_chainId_def col_logs_logIndex_def
        less_checkpoint_def less_eq_checkpoint_def)

lemma checkpoint_block_granularity:
  assumes "logIndex c = None"
  shows "c < Checkpoint t ch n (Some i) \<longleftrightarrow>
           (blockTimestamp c, chainId c, blockNumber c) < (t, ch, n)"
    and "Checkpoint t ch n (Some i) \<le> c \<longleftrightarrow>
           (t, ch, n) \<le> (blockTimestamp c, chainId c, blockNumber c)"
  using assms by (cases c; auto simp: less_checkpoint_def less_eq_checkpoint_def)+

lemma order_key_le_iff:
  "rowCheckpoint r = Some a \<Longrightarrow> rowCheckpoint r' = Some b \<Longrightarrow>
   order_key r \<le> order_key r' \<longleftrightarrow> a \<le> b"
  by (cases "jr_block r"; cases "jr_block r'")
     (auto simp: rowCheckpoint_def order_key_def less_eq_checkpoint_def less_checkpoint_def)

lemma order_key_less_iff:
  "rowCheckpoint r = Some a \<Longrightarrow> rowCheckpoint r' = Some b \<Longrightarrow>
   order_key r < order_key r' \<longleftrightarrow> a < b"
  by (cases "jr_block r"; cases "jr_block r'")
     (auto simp: rowCheckpoint_def order_key_def less_checkpoint_def)

lemma toEvent_checkpoint:
  "toEvent r = Inr e \<Longrightarrow> rowCheckpoint r = Some (eventCheckpoint e)"
  by (auto simp: toEvent_def rowCheckpoint_def eventCheckpoint_def split: option.splits)

lemma mapM_Inr_list_all2:
  "mapM f xs = Inr ys \<Longrightarrow> list_all2 (\<lambda>x y. f x = Inr y) xs ys"
  by (induction xs arbitrary: ys) (auto split: sum.splits)

lemma list_all2_right_ex:
  "list_all2 R xs ys \<Longrightarrow> y \<in> set ys \<Longrightarrow> \<exists>x \<in> set xs. R x y"
  by (induction rule: list_all2_induct) auto

lemma whereClauses_window:
  assumes "whereClauses db srcs c1 c2 r"
  shows "\<exists>cp. rowCheckpoint r = Some cp \<and> c1 < cp \<and> cp \<le> c2"
  using assms by (auto simp: whereClauses_def buildCheckpointCmprs_Gt buildCheckpointCmprs_Le)

lemma events_window:
  assumes "list_all2 (\<lambda>r e. toEvent r = Inr e) rs evs"
    and "\<forall>r \<in> set rs. whereClauses db srcs c1 c2 r"
  shows "\<forall>e \<in> set evs. c1 < eventCheckpoint e \<and> eventCheckpoint e \<le> c2"
  using assms
proof (induction rule: list_all2_induct)
  case Nil
  then show ?case by simp
next
  case (Cons r rs e evs)
  from Cons.prems have "whereClauses db srcs c1 c2 r" by simp
  from whereClauses_window[OF this] toEvent_checkpoint[OF Cons.hyps(1)]
  have "c1 < eventCheckpoint e \<and> eventCheckpoint e \<le> c2" by auto
  with Cons show ?case by simp
qed

lemma events_sorted:
  assumes "list_all2 (\<lambda>r e. toEvent r = Inr e) rs evs"
    and "sorted (map order_key rs)"
  shows "sorted (map eventCheckpoint evs)"
  using assms
proof (induction rule: list_all2_induct)
  case Nil
  then show ?case by simp
next
  case (Cons r rs e evs)
  have "eventCheckpoint e \<le> eventCheckpoint e'" if "e' \<in> set evs" for e'
  proof -
    from list_all2_right_ex[OF Cons.hyps(2) that]
    obtain r' where r': "r' \<in> set rs" "toEvent r' = Inr e'" by blast
    with Cons.prems have "order_key r \<le> order_key r'" by auto
    then show ?thesis
      using order_key_le_iff[OF toEvent_checkpoint[OF Cons.hyps(1)] toEvent_checkpoint[OF r'(2)]]
      by simp
  qed
  with Cons show ?case by auto
qed

lemma events_strictly_sorted:
  assumes "list_all2 (\<lambda>r e. toEvent r = Inr e) rs evs"
    and "sorted_wrt (<) (map order_key rs)"
  shows "sorted_wrt (<) (map eventCheckpoint evs)"
  using assms
proof (induction rule: list_all2_induct)
  case Nil
  then show ?case by simp
next
  case (Cons r rs e evs)
  have "eventCheckpoint e < eventCheckpoint e'" if "e' \<in> set evs" for e'
  proof -
    from list_all2_right_ex[OF Cons.hyps(2) that]
    obtain r' where r': "r' \<in> set rs" "toEvent r' = Inr e'" by blast
    with Cons.prems have "order_key r < order_key r'" by auto
    then show ?thesis
      using order_key_less_iff[OF toEvent_checkpoint[OF Cons.hyps(1)] toEvent_checkpoint[OF r'(2)]]
      by simp
  qed
  with Cons show ?case by auto
qed

text \<open>The join has no duplicate rows when the keys are unique, and then two result
  rows with the same checkpoint are the same row.\<close>

lemma set_left_join:
  "set (left_join P xs) = (if filter P xs = [] then {None} else Some ` set (filter P xs))"
proof (cases "filter P xs")
  case Nil
  then show ?thesis by (simp add: left_join_def)
next
  case (Cons y ys)
  have "set (map Some (filter P xs)) = Some ` set (filter P xs)" by simp
  with Cons show ?thesis by (simp add: left_join_def del: set_filter)
qed

lemma left_join_distinct: "distinct xs \<Longrightarrow> distinct (left_join P xs)"
proof (cases "filter P xs")
  case Nil
  then show ?thesis by (simp add: left_join_def)
next
  case (Cons y ys)
  assume "distinct xs"
  then have "distinct (filter P xs)" by simp
  then have "distinct (map Some (filter P xs))" by (simp add: distinct_map)
  with Cons show ?thesis by (simp add: left_join_def)
qed

lemma left_join_unique:
  assumes "distinct (map key xs)" and "x \<in> set (left_join (\<lambda>y. key y = k) xs)"
    and "x' \<in> set (left_join (\<lambda>y. key y = k) xs)"
  shows "x = x'"
proof -
  have inj: "y = y'" if "y \<in> set xs" "y' \<in> set xs" "key y = key y'" for y y'
    using assms(1) that by (meson distinct_map inj_onD)
  show ?thesis
    using assms(2,3) inj unfolding set_left_join
    by (auto split: if_splits)
qed

lemma in_logs_blocks_transactions:
  "r \<in> set (logs_blocks_transactions db) \<longleftrightarrow>
     jr_log r \<in> set (logs db) \<and>
     jr_block r \<in> set (left_join (\<lambda>b. block_hash b = log_blockHash (jr_log r)) (blocks db)) \<and>
     jr_tx r \<in> set (left_join (\<lambda>t. tx_hash t = log_transactionHash (jr_log r)) (transactions db))"
proof (cases r)
  case (fields l b t)
  then show ?thesis
    by (simp add: logs_blocks_transactions_def) blast
qed

lemma distinct_concat_map_tagged:
  assumes "distinct xs" and "\<And>x. x \<in> set xs \<Longrightarrow> distinct (f x)"
    and "\<And>x y. x \<in> set xs \<Longrightarrow> y \<in> set (f x) \<Longrightarrow> tag y = x"
  shows "distinct (concat (map f xs))"
  using assms
proof (induction xs)
  case Nil
  then show ?case by simp
next
  case (Cons x xs)
  have "set (f x) \<inter> set (concat (map f xs)) = {}"
  proof (rule ccontr)
    assume "set (f x) \<inter> set (concat (map f xs)) \<noteq> {}"
    then obtain y x' where "y \<in> set (f x)" "x' \<in> set xs" "y \<in> set (f x')" by auto
    with Cons.prems(3)[of x y] Cons.prems(3)[of x' y] have "x = x'" by simp
    with \<open>x' \<in> set xs\<close> Cons.prems(1) show False by simp
  qed
  moreover have "distinct (concat (map f xs))"
    using Cons by simp
  ultimately show ?case using Cons.prems(2)[of x] by simp
qed

lemma logs_blocks_transactions_distinct:
  assumes "uniqueKeys db"
  shows "distinct (logs_blocks_transactions db)"
proof -
  from assms have dl: "distinct (logs db)" and db: "distinct (blocks db)"
    and dt: "distinct (transactions db)"
    by (simp_all add: uniqueKeys_def distinct_map)
  show ?thesis
    unfolding logs_blocks_transactions_def
  proof (rule distinct_concat_map_tagged[where tag = jr_log, OF dl])
    fix l assume "l \<in> set (logs db)"
    show "distinct (concat (map (\<lambda>b. map (\<lambda>t. \<lparr>jr_log = l, jr_block = b, jr_tx = t\<rparr>)
              (left_join (\<lambda>t. tx_hash t = log_transactionHash l) (transactions db)))
            (left_join (\<lambda>b. block_hash b = log_blockHash l) (blocks db))))"
    proof (rule distinct_concat_map_tagged[where tag = jr_block, OF left_join_distinct[OF db]])
      fix b
      show "distinct (map (\<lambda>t. \<lparr>jr_log = l, jr_block = b, jr_tx = t\<rparr>)
              (left_join (\<lambda>t. tx_hash t = log_transactionHash l) (transactions db)))"
        using left_join_distinct[OF dt] by (simp add: distinct_map inj_on_def)
    qed auto
  qed auto
qed

lemma rowCheckpoint_inj:
  assumes "uniqueKeys db" and "oneBlockPerHeight db"
    and "r \<in> set (logs_blocks_transactions db)" and "r' \<in> set (logs_blocks_transactions db)"
    and "rowCheckpoint r = Some c" and "rowCheckpoint r' = Some c"
  shows "r = r'"
proof -
  from assms(5) obtain b where b: "jr_block r = Some b"
    "c = Checkpoint (block_timestamp b) (log_chainId (jr_log r)) (block_number b)
           (Some (log_logIndex (jr_log r)))"
    by (auto simp: rowCheckpoint_def)
  from assms(6) obtain b' where b': "jr_block r' = Some b'"
    "c = Checkpoint (block_timestamp b') (log_chainId (jr_log r')) (block_number b')
           (Some (log_logIndex (jr_log r')))"
    by (auto simp: rowCheckpoint_def)
  from assms(3) b(1) have rb: "jr_log r \<in> set (logs db)" "b \<in> set (blocks db)"
    "block_hash b = log_blockHash (jr_log r)"
    by (auto simp: in_logs_blocks_transactions set_left_join split: if_splits)
  from assms(4) b'(1) have rb': "jr_log r' \<in> set (logs db)" "b' \<in> set (blocks db)"
    "block_hash b' = log_blockHash (jr_log r')"
    by (auto simp: in_logs_blocks_transactions set_left_join split: if_splits)
  from b(2) b'(2) have eqs: "log_chainId (jr_log r) = log_chainId (jr_log r')"
    "block_number b = block_number b'" "log_logIndex (jr_log r) = log_logIndex (jr_log r')"
    by simp_all
  from assms(2) rb rb' have "block_chainId b = log_chainId (jr_log r)"
    "block_chainId b' = log_chainId (jr_log r')"
    by (auto simp: oneBlockPerHeight_def)
  with eqs assms(2) rb(2) rb'(2) have "b = b'"
    by (auto simp: oneBlockPerHeight_def)
  with rb(3) rb'(3) eqs
  have "(log_chainId (jr_log r), log_blockHash (jr_log r), log_logIndex (jr_log r)) =
        (log_chainId (jr_log r'), log_blockHash (jr_log r'), log_logIndex (jr_log r'))"
    by simp
  with assms(1) rb(1) rb'(1) have l: "jr_log r = jr_log r'"
    unfolding uniqueKeys_def by (meson distinct_map inj_onD)
  from assms(1) have "distinct (map tx_hash (transactions db))" by (simp add: uniqueKeys_def)
  from left_join_unique[OF this] assms(3,4) l have "jr_tx r = jr_tx r'"
    by (auto simp: in_logs_blocks_transactions)
  with l b(1) b'(1) \<open>b = b'\<close> show ?thesis by (cases r; cases r') simp
qed

lemma getLogEvents_events:
  assumes "getLogEvents db c1 c2 limit srcs = Inr page"
  shows "\<exists>evs. mapM toEvent (take (nat (limit + 1)) (sort_key order_key
            (filter (whereClauses db srcs c1 c2) (logs_blocks_transactions db)))) = Inr evs \<and>
          (events page = evs \<or> events page = butlast evs)"
proof -
  let ?req = "take (nat (limit + 1)) (sort_key order_key
            (filter (whereClauses db srcs c1 c2) (logs_blocks_transactions db)))"
  from assms have nn: "\<not> limit + 1 < 0"
    by (auto simp: getLogEvents_def split: if_splits)
  from assms nn obtain evs where evs: "mapM toEvent ?req = Inr evs"
    by (cases "mapM toEvent ?req") (auto simp: getLogEvents_def Let_def)
  show ?thesis
  proof (cases "int (length evs) = limit + 1")
    case True
    with assms nn evs show ?thesis
      by (cases "butlast evs") (auto simp: getLogEvents_def Let_def)
  next
    case False
    with assms nn evs show ?thesis
      by (auto simp: getLogEvents_def Let_def)
  qed
qed

lemma requested_rows_where:
  "r \<in> set (take n (sort_key order_key (filter W rows))) \<Longrightarrow> W r"
  by (auto dest: in_set_takeD)

lemma requested_rows_sorted:
  "sorted (map order_key (take n (sort_key order_key rows)))"
  by (simp add: sorted_wrt_take flip: take_map)

lemma sorted_butlast_map: "sorted (map f xs) \<Longrightarrow> sorted (map f (butlast xs))"
  by (simp add: butlast_conv_take sorted_wrt_take flip: take_map)

lemma strictly_sorted_butlast_map:
  "sorted_wrt (<) (map f xs) \<Longrightarrow> sorted_wrt (<) (map f (butlast xs))"
  by (simp add: butlast_conv_take sorted_wrt_take flip: take_map)

lemma requested_rows_strictly_sorted:
  assumes "uniqueKeys db" and "oneBlockPerHeight db"
  shows "sorted_wrt (<) (map order_key (take n (sort_key order_key
           (filter (whereClauses db srcs c1 c2) (logs_blocks_transactions db)))))"
proof -
  let ?rows = "filter (whereClauses db srcs c1 c2) (logs_blocks_transactions db)"
  have d: "distinct ?rows"
    using logs_blocks_transactions_distinct[OF assms(1)] by simp
  have inj: "inj_on order_key (set ?rows)"
  proof (rule inj_onI)
    fix r r' assume r: "r \<in> set ?rows" and r': "r' \<in> set ?rows"
      and eq: "order_key r = order_key r'"
    from r obtain c where c: "rowCheckpoint r = Some c" using whereClauses_window by fastforce
    from r' obtain c' where c': "rowCheckpoint r' = Some c'" using whereClauses_window by fastforce
    from eq order_key_le_iff[OF c c'] order_key_le_iff[OF c' c] have "c = c'" by simp
    with rowCheckpoint_inj[OF assms, of r r' c] r r' c c' show "r = r'" by simp
  qed
  have "distinct (map order_key (sort_key order_key ?rows))"
    using d inj by (simp add: distinct_map)
  then have "sorted_wrt (<) (map order_key (sort_key order_key ?rows))"
    by (simp add: strict_sorted_iff)
  then show ?thesis
    by (simp add: sorted_wrt_take flip: take_map)
qed

text \<open>
  Claim C1 (as amended). Every event of a page returned by \<open>getLogEvents\<close> has a
  checkpoint strictly greater than \<open>fromCheckpoint\<close> and less than or equal to
  \<open>toCheckpoint\<close>, in the checkpoint order (where a bound without logIndex stands
  for the end of its block, so the comparison is at block granularity, see
  \<open>checkpoint_block_granularity\<close>); the page is sorted in that order; and it is
  strictly increasing when the store's keys are unique and it holds one block per
  chain and height.
\<close>

theorem getLogEvents_window_sorted:
  assumes "getLogEvents db fromCheckpoint toCheckpoint limit srcs = Inr page"
  shows "(\<forall>e \<in> set (events page).
            fromCheckpoint < eventCheckpoint e \<and> eventCheckpoint e \<le> toCheckpoint) \<and>
         sorted (map eventCheckpoint (events page)) \<and>
         (uniqueKeys db \<and> oneBlockPerHeight db \<longrightarrow>
            sorted_wrt (<) (map eventCheckpoint (events page)))"
proof -
  let ?req = "take (nat (limit + 1)) (sort_key order_key
     (filter (whereClauses db srcs fromCheckpoint toCheckpoint) (logs_blocks_transactions db)))"
  from getLogEvents_events[OF assms] obtain evs where evs: "mapM toEvent ?req = Inr evs"
    and page: "events page = evs \<or> events page = butlast evs" by blast
  note rel = mapM_Inr_list_all2[OF evs]
  have w: "\<forall>r \<in> set ?req. whereClauses db srcs fromCheckpoint toCheckpoint r"
    using requested_rows_where by blast
  have window: "\<forall>e \<in> set evs. fromCheckpoint < eventCheckpoint e \<and> eventCheckpoint e \<le> toCheckpoint"
    by (rule events_window[OF rel w])
  have srt: "sorted (map eventCheckpoint evs)"
    by (rule events_sorted[OF rel requested_rows_sorted])
  have strict: "sorted_wrt (<) (map eventCheckpoint evs)"
    if "uniqueKeys db" "oneBlockPerHeight db"
    by (rule events_strictly_sorted[OF rel requested_rows_strictly_sorted[OF that]])
  from page show ?thesis
  proof
    assume "events page = evs"
    with window srt strict show ?thesis by simp
  next
    assume "events page = butlast evs"
    with window sorted_butlast_map[OF srt] strictly_sorted_butlast_map[OF strict] show ?thesis
      by (auto dest: in_set_butlastD)
  qed
qed

lemma fork_eval:
  "getLogEvents forkStore zeroCheckpoint (Checkpoint 200 1 10 None) 10 exampleSources = Inr forkPage"
  by code_simp

lemma example_eval:
  "getLogEvents exampleStore zeroCheckpoint (Checkpoint 200 1 10 None) 10 exampleSources = Inr examplePage"
  by code_simp

text \<open>
  On the fork store the page holds two events with the same checkpoint, so the
  sequence is not strictly increasing (claim C1 as stated fails there).
\<close>

theorem getLogEvents_strictly_increasing_counterexample:
  "getLogEvents forkStore zeroCheckpoint (Checkpoint 200 1 10 None) 10 exampleSources = Inr forkPage \<and>
   map eventCheckpoint (events forkPage) = [Checkpoint 100 1 5 (Some 0), Checkpoint 100 1 5 (Some 0)] \<and>
   \<not> sorted_wrt (<) (map eventCheckpoint (events forkPage))"
proof -
  have cps: "map eventCheckpoint (events forkPage) =
      [Checkpoint 100 1 5 (Some 0), Checkpoint 100 1 5 (Some 0)]"
    by (simp add: forkPage_def forkStore_def eventCheckpoint_def)
  show ?thesis unfolding cps using fork_eval by simp
qed

theorem getLogEvents_window_sorted_witness:
  "getLogEvents exampleStore zeroCheckpoint (Checkpoint 200 1 10 None) 10 exampleSources = Inr examplePage \<and>
   uniqueKeys exampleStore \<and> oneBlockPerHeight exampleStore \<and>
   map eventCheckpoint (events examplePage) = [Checkpoint 90 1 9 (Some 0), Checkpoint 120 1 12 (Some 0)] \<and>
   sorted_wrt (<) (map eventCheckpoint (events examplePage)) \<and>
   zeroCheckpoint < eventCheckpoint (hd (events examplePage)) \<and>
   eventCheckpoint (hd (events examplePage)) \<le> Checkpoint 200 1 10 None"
proof -
  have u: "uniqueKeys exampleStore" by (simp add: uniqueKeys_def exampleStore_def)
  have h: "oneBlockPerHeight exampleStore" by (simp add: oneBlockPerHeight_def exampleStore_def)
  have cps: "map eventCheckpoint (events examplePage) =
      [Checkpoint 90 1 9 (Some 0), Checkpoint 120 1 12 (Some 0)]"
    by (simp add: examplePage_def exampleStore_def eventCheckpoint_def)
  have m: "hd (events examplePage) \<in> set (events examplePage)" by (simp add: examplePage_def)
  from getLogEvents_window_sorted[OF example_eval] u h m cps example_eval
  show ?thesis by simp
qed

section \<open>Verification: getFactoryChildAddresses\<close>

text \<open>With page size 0 every query returns no row and \<open>0 < 0\<close> never holds: the loop
  does not end.\<close>


lemma getFactoryChildAddresses_loop_pageSize_zero:
  "getFactoryChildAddresses_loop fuel db cid upTo factory 0 cursor = None"
  by (induction fuel arbitrary: cursor) (simp_all add: factoryChildAddressQuery_def)

text \<open>
  Claim C9 (the code departs from it). On the factory store with page size 1 the first
  query returns the first child, the cursor becomes block 7, and the second query
  (\<open>blockNumber > 7\<close>) returns nothing: the loop ends having yielded one of the two
  matching child addresses.
\<close>

theorem getFactoryChildAddresses_skips_same_block:
  "getFactoryChildAddresses 5 factoryStore 1 100 exampleFactory 1 =
     Some [[Some ''0x1111111111111111111111111111111111111111'']] \<and>
   map fst (factoryChildAddressRows factoryStore 1 100 exampleFactory) =
     [Some ''0x1111111111111111111111111111111111111111'',
      Some ''0x2222222222222222222222222222222222222222'']"
  by code_simp

section \<open>Verification: getLogFilterIntervals\<close>
















section \<open>Verification: sync gateway\<close>

lemma checkpointMin_Cons: "checkpointMin (c # cs) = Some (Min (set (c # cs)))"
  using Min.set_eq_fold[of c cs] by simp

lemma checkpointMin_Some: "cs \<noteq> [] \<Longrightarrow> checkpointMin cs = Some (Min (set cs))"
proof (cases cs)
  case Nil
  assume "cs \<noteq> []"
  with Nil show ?thesis by simp
next
  case (Cons c cs')
  show ?thesis unfolding Cons by (rule checkpointMin_Cons)
qed

lemma checkpointMin_eq_Some:
  "checkpointMin cs = Some m \<longleftrightarrow> cs \<noteq> [] \<and> m = Min (set cs)"
proof (cases cs)
  case Nil
  then show ?thesis by simp
next
  case (Cons c cs')
  then show ?thesis unfolding Cons checkpointMin_Cons by auto
qed

lemma checkpointMax_max: "checkpointMax a b = max a b"
  by (auto simp: checkpointMax_def isCheckpointGreaterThan_def max_def)

lemma recomputedCheckpoint_mono:
  assumes "recomputedCheckpoint gw = Some m" and "gw_chains gw' = gw_chains gw"
    and "\<And>c. perChainBest (gw_networkCheckpoints gw c) \<le> perChainBest (gw_networkCheckpoints gw' c)"
  shows "\<exists>m'. recomputedCheckpoint gw' = Some m' \<and> m \<le> m'"
proof -
  let ?f = "\<lambda>c. perChainBest (gw_networkCheckpoints gw c)"
  let ?g = "\<lambda>c. perChainBest (gw_networkCheckpoints gw' c)"
  from assms(1) have ne: "gw_chains gw \<noteq> []" and m: "m = Min (?f ` set (gw_chains gw))"
    by (auto simp: recomputedCheckpoint_def checkpointMin_eq_Some)
  have m': "recomputedCheckpoint gw' = Some (Min (?g ` set (gw_chains gw)))"
    using ne assms(2) by (simp add: recomputedCheckpoint_def checkpointMin_Some)
  have "m \<le> ?g c" if "c \<in> set (gw_chains gw)" for c
  proof -
    have "m \<le> ?f c" unfolding m using that by (intro Min_le) auto
    with assms(3)[of c] show ?thesis by simp
  qed
  then have "m \<le> Min (?g ` set (gw_chains gw))"
    using ne by (subst Min_ge_iff) auto
  with m' show ?thesis by blast
qed

lemma recalculateCheckpoint_props:
  assumes "recomputedCheckpoint gw = Some m" and "gw_checkpoint gw \<le> m"
  shows "gatewayInv (recalculateCheckpoint gw)"
    and "gw_chains (recalculateCheckpoint gw) = gw_chains gw"
    and "gw_checkpoint (recalculateCheckpoint gw) = m"
    and "newCheckpoints (gw_emitted (recalculateCheckpoint gw)) =
           newCheckpoints (gw_emitted gw) @ (if gw_checkpoint gw < m then [m] else [])"
proof -
  have nc_app: "newCheckpoints (es @ [NewCheckpoint c]) = newCheckpoints es @ [c]" for es c
    by (induction es rule: newCheckpoints.induct) auto
  show "gatewayInv (recalculateCheckpoint gw)"
    using assms
    by (auto simp: gatewayInv_def recalculateCheckpoint_def recomputedCheckpoint_def
        isCheckpointGreaterThan_def)
  show "gw_chains (recalculateCheckpoint gw) = gw_chains gw"
    using assms by (auto simp: recalculateCheckpoint_def)
  show "gw_checkpoint (recalculateCheckpoint gw) = m"
    using assms by (auto simp: recalculateCheckpoint_def isCheckpointGreaterThan_def)
  show "newCheckpoints (gw_emitted (recalculateCheckpoint gw)) =
           newCheckpoints (gw_emitted gw) @ (if gw_checkpoint gw < m then [m] else [])"
    using assms by (auto simp: recalculateCheckpoint_def isCheckpointGreaterThan_def nc_app)
qed

lemma update_then_recalculate:
  assumes "gatewayInv gw" and "gw_chains gw1 = gw_chains gw"
    and "gw_checkpoint gw1 = gw_checkpoint gw" and "gw_emitted gw1 = gw_emitted gw"
    and "\<And>c. perChainBest (gw_networkCheckpoints gw c) \<le> perChainBest (gw_networkCheckpoints gw1 c)"
  shows "gatewayInv (recalculateCheckpoint gw1) \<and>
         gw_chains (recalculateCheckpoint gw1) = gw_chains gw \<and>
         gw_checkpoint gw \<le> gw_checkpoint (recalculateCheckpoint gw1) \<and>
         newCheckpoints (gw_emitted (recalculateCheckpoint gw1)) =
           newCheckpoints (gw_emitted gw) @
             (if gw_checkpoint gw < gw_checkpoint (recalculateCheckpoint gw1)
              then [gw_checkpoint (recalculateCheckpoint gw1)] else [])"
proof -
  from assms(1) have "recomputedCheckpoint gw = Some (gw_checkpoint gw)"
    by (simp add: gatewayInv_def)
  from recomputedCheckpoint_mono[OF this assms(2) assms(5)]
  obtain m where m: "recomputedCheckpoint gw1 = Some m" "gw_checkpoint gw \<le> m" by blast
  from m(2) assms(3) have le: "gw_checkpoint gw1 \<le> m" by simp
  from recalculateCheckpoint_props[OF m(1) le] assms(2,3,4) m(2)
  show ?thesis by simp
qed

lemma perChainBest_historical:
  "historicalCheckpoint n < c \<Longrightarrow> perChainBest n \<le> perChainBest (n\<lparr>historicalCheckpoint := c\<rparr>)"
  by (auto simp: perChainBest_def checkpointMax_max max_def)

lemma perChainBest_realtime:
  "realtimeCheckpoint n < c \<Longrightarrow> perChainBest n \<le> perChainBest (n\<lparr>realtimeCheckpoint := c\<rparr>)"
  by (auto simp: perChainBest_def checkpointMax_max max_def)

lemma perChainBest_complete:
  "perChainBest n \<le> perChainBest (n\<lparr>isHistoricalSyncComplete := True\<rparr>)"
  by (auto simp: perChainBest_def checkpointMax_max max_def)

lemma perChainBest_finality [simp]:
  "perChainBest (n\<lparr>finalityCheckpoint := c\<rparr>) = perChainBest n"
  by (simp add: perChainBest_def)

lemma newCheckpoints_append:
  "newCheckpoints (es @ es') = newCheckpoints es @ newCheckpoints es'"
  by (induction es rule: newCheckpoints.induct) auto

lemma recalculateFinalityCheckpoint_props:
  "gw_chains (recalculateFinalityCheckpoint gw) = gw_chains gw"
  "gw_networkCheckpoints (recalculateFinalityCheckpoint gw) = gw_networkCheckpoints gw"
  "gw_checkpoint (recalculateFinalityCheckpoint gw) = gw_checkpoint gw"
  "newCheckpoints (gw_emitted (recalculateFinalityCheckpoint gw)) = newCheckpoints (gw_emitted gw)"
  by (auto simp: recalculateFinalityCheckpoint_def newCheckpoints_append split: option.splits)

lemma gatewayStep_no_reset:
  assumes "gatewayInv gw" and "\<not> isReset i"
  shows "gatewayInv (gatewayStep i gw) \<and>
         gw_chains (gatewayStep i gw) = gw_chains gw \<and>
         gw_checkpoint gw \<le> gw_checkpoint (gatewayStep i gw) \<and>
         newCheckpoints (gw_emitted (gatewayStep i gw)) =
           newCheckpoints (gw_emitted gw) @
             (if gw_checkpoint gw < gw_checkpoint (gatewayStep i gw)
              then [gw_checkpoint (gatewayStep i gw)] else [])"
proof (cases i)
  case (HistoricalCheckpoint c)
  show ?thesis
    unfolding HistoricalCheckpoint gatewayStep.simps handleNewHistoricalCheckpoint_def Let_def
    by (rule update_then_recalculate[OF assms(1)])
       (auto simp: isCheckpointGreaterThan_def perChainBest_historical)
next
  case (HistoricalSyncComplete cid)
  show ?thesis
    unfolding HistoricalSyncComplete gatewayStep.simps handleHistoricalSyncComplete_def
    by (rule update_then_recalculate[OF assms(1)]) (auto simp: perChainBest_complete)
next
  case (RealtimeCheckpoint c)
  show ?thesis
    unfolding RealtimeCheckpoint gatewayStep.simps handleNewRealtimeCheckpoint_def Let_def
    by (rule update_then_recalculate[OF assms(1)])
       (auto simp: isCheckpointGreaterThan_def perChainBest_realtime)
next
  case (FinalityCheckpoint c)
  define gw1 where "gw1 = (if isCheckpointGreaterThan c
        (finalityCheckpoint (gw_networkCheckpoints gw (chainId c)))
      then gw\<lparr>gw_networkCheckpoints := (gw_networkCheckpoints gw)
             (chainId c := (gw_networkCheckpoints gw (chainId c))\<lparr>finalityCheckpoint := c\<rparr>)\<rparr>
      else gw)"
  have step: "gatewayStep i gw = recalculateFinalityCheckpoint gw1"
    by (simp add: FinalityCheckpoint handleNewFinalityCheckpoint_def Let_def gw1_def)
  have same: "gw_chains gw1 = gw_chains gw" "gw_checkpoint gw1 = gw_checkpoint gw"
    "gw_emitted gw1 = gw_emitted gw"
    "perChainBest (gw_networkCheckpoints gw1 k) = perChainBest (gw_networkCheckpoints gw k)" for k
    by (simp_all add: gw1_def)
  have "recomputedCheckpoint (recalculateFinalityCheckpoint gw1) = recomputedCheckpoint gw"
    by (simp add: recomputedCheckpoint_def recalculateFinalityCheckpoint_props same)
  with assms(1) show ?thesis
    unfolding step
    by (simp add: gatewayInv_def recalculateFinalityCheckpoint_props same)
next
  case (ReorgSignal c)
  with assms(1) show ?thesis
    by (auto simp: gatewayInv_def recomputedCheckpoint_def gatewayHandleReorg_def
        newCheckpoints_append)
next
  case (ResetCheckpoints cid)
  with assms(2) show ?thesis by simp
qed

lemma gatewayStep_reset:
  assumes "gatewayInv gw" and "cid \<in> set (gw_chains gw)"
  shows "gatewayInv (gatewayStep (ResetCheckpoints cid) gw)"
    and "gw_chains (gatewayStep (ResetCheckpoints cid) gw) = gw_chains gw"
proof -
  let ?gw' = "resetCheckpoints cid gw"
  let ?f = "\<lambda>c. perChainBest (gw_networkCheckpoints ?gw' c)"
  have ne: "gw_chains gw \<noteq> []" using assms(2) by auto
  have z: "?f cid = zeroCheckpoint"
    by (simp add: resetCheckpoints_def perChainBest_def defaultNetworkCheckpoints_def)
  have "Min (?f ` set (gw_chains gw)) = zeroCheckpoint"
  proof (rule antisym)
    show "Min (?f ` set (gw_chains gw)) \<le> zeroCheckpoint"
      using assms(2) z by (metis List.finite_set Min_le finite_imageI imageI)
    show "zeroCheckpoint \<le> Min (?f ` set (gw_chains gw))"
      by (rule zeroCheckpoint_least)
  qed
  then have "recomputedCheckpoint ?gw' = Some zeroCheckpoint"
    using ne by (simp add: recomputedCheckpoint_def checkpointMin_Some resetCheckpoints_def)
  then show "gatewayInv (gatewayStep (ResetCheckpoints cid) gw)"
    by (simp add: gatewayInv_def) (simp add: resetCheckpoints_def)
  show "gw_chains (gatewayStep (ResetCheckpoints cid) gw) = gw_chains gw"
    by (simp add: resetCheckpoints_def)
qed

lemma newSyncGateway_inv: "networks \<noteq> [] \<Longrightarrow> gatewayInv (newSyncGateway networks)"
proof -
  assume ne: "networks \<noteq> []"
  have z: "perChainBest defaultNetworkCheckpoints = zeroCheckpoint"
    by (simp add: perChainBest_def defaultNetworkCheckpoints_def)
  have r: "recomputedCheckpoint (newSyncGateway networks) =
        checkpointMin (map (\<lambda>c. zeroCheckpoint) networks)"
    by (simp add: recomputedCheckpoint_def newSyncGateway_def z)
  have "set (map (\<lambda>c. zeroCheckpoint) networks) = {zeroCheckpoint}"
    using ne by (cases networks) auto
  then have "Min (set (map (\<lambda>c. zeroCheckpoint) networks)) = zeroCheckpoint"
    by (simp only: Min_singleton)
  moreover have "map (\<lambda>c. zeroCheckpoint) networks \<noteq> []" using ne by simp
  ultimately have "checkpointMin (map (\<lambda>c. zeroCheckpoint) networks) = Some zeroCheckpoint"
    using checkpointMin_Some by metis
  with r show ?thesis
    by (simp add: gatewayInv_def) (simp add: newSyncGateway_def)
qed

lemma gatewayRun_inv:
  assumes "gatewayInv gw"
    and "\<forall>i \<in> set inputs. isReset i \<longrightarrow> inputChain i \<in> set (gw_chains gw)"
  shows "gatewayInv (gatewayRun inputs gw) \<and> gw_chains (gatewayRun inputs gw) = gw_chains gw"
  using assms
proof (induction inputs arbitrary: gw)
  case Nil
  then show ?case by (simp add: gatewayRun_def)
next
  case (Cons i inputs)
  have step: "gatewayInv (gatewayStep i gw) \<and> gw_chains (gatewayStep i gw) = gw_chains gw"
  proof (cases "isReset i")
    case True
    then obtain cid where i: "i = ResetCheckpoints cid" by (cases i) auto
    with Cons.prems(2) have "cid \<in> set (gw_chains gw)" by simp
    from gatewayStep_reset[OF Cons.prems(1) this] show ?thesis by (simp add: i)
  next
    case False
    from gatewayStep_no_reset[OF Cons.prems(1) False] show ?thesis by simp
  qed
  with Cons.prems(2) have "\<forall>j \<in> set inputs. isReset j \<longrightarrow> inputChain j \<in> set (gw_chains (gatewayStep i gw))"
    by simp
  from Cons.IH[OF _ this] step show ?case by (simp add: gatewayRun_def)
qed

lemma gatewayRun_no_reset:
  assumes "gatewayInv gw" and "\<forall>i \<in> set inputs. \<not> isReset i"
  shows "\<exists>es. newCheckpoints (gw_emitted (gatewayRun inputs gw)) =
                 newCheckpoints (gw_emitted gw) @ es \<and>
              sorted_wrt (<) es \<and> (\<forall>c \<in> set es. gw_checkpoint gw < c) \<and>
              gw_checkpoint (gatewayRun inputs gw) = last (gw_checkpoint gw # es)"
  using assms
proof (induction inputs arbitrary: gw)
  case Nil
  then show ?case by (simp add: gatewayRun_def)
next
  case (Cons i inputs)
  let ?gw' = "gatewayStep i gw"
  from Cons.prems(2) have nr: "\<not> isReset i" by simp
  note s = gatewayStep_no_reset[OF Cons.prems(1) nr]
  from s have inv': "gatewayInv ?gw'" by simp
  from Cons.prems(2) have "\<forall>j \<in> set inputs. \<not> isReset j" by simp
  from Cons.IH[OF inv' this] obtain es2 where es2:
    "newCheckpoints (gw_emitted (gatewayRun inputs ?gw')) = newCheckpoints (gw_emitted ?gw') @ es2"
    "sorted_wrt (<) es2" "\<forall>c \<in> set es2. gw_checkpoint ?gw' < c"
    "gw_checkpoint (gatewayRun inputs ?gw') = last (gw_checkpoint ?gw' # es2)"
    by blast
  define es1 where "es1 = (if gw_checkpoint gw < gw_checkpoint ?gw' then [gw_checkpoint ?gw'] else [])"
  from s have le: "gw_checkpoint gw \<le> gw_checkpoint ?gw'"
    and em: "newCheckpoints (gw_emitted ?gw') = newCheckpoints (gw_emitted gw) @ es1"
    by (simp_all add: es1_def)
  have run: "gatewayRun (i # inputs) gw = gatewayRun inputs ?gw'" by (simp add: gatewayRun_def)
  have 1: "newCheckpoints (gw_emitted (gatewayRun (i # inputs) gw)) =
           newCheckpoints (gw_emitted gw) @ (es1 @ es2)"
    unfolding run es2(1) em by simp
  have 2: "sorted_wrt (<) (es1 @ es2)"
    using es2(2,3) by (auto simp: es1_def sorted_wrt_append)
  have 3: "\<forall>c \<in> set (es1 @ es2). gw_checkpoint gw < c"
    using es2(3) le by (auto simp: es1_def)
  have 4: "gw_checkpoint (gatewayRun (i # inputs) gw) = last (gw_checkpoint gw # (es1 @ es2))"
    unfolding run es2(4) using le by (cases es2) (auto simp: es1_def)
  from 1 2 3 4 show ?case by blast
qed

lemma newCheckpointsSince_append:
  "newCheckpoints (gw_emitted gw) = newCheckpoints (gw_emitted gw0) @ es \<Longrightarrow>
   newCheckpointsSince gw0 gw = es"
  by (simp add: newCheckpointsSince_def)

text \<open>
  Claim C2 (as amended; the gateway is modelled from the spec). Start a gateway on a
  non-empty set of chains, feed it any inputs \<open>pre\<close> (resets only of configured
  chains) and then inputs \<open>post\<close> without \<open>resetCheckpoints\<close>. Then the global
  checkpoint equals the minimum over the chains of \<open>perChainBest\<close>; it is the last
  \<open>newCheckpoint\<close> value emitted during \<open>post\<close> (or the value before \<open>post\<close> if none
  was); the values emitted during \<open>post\<close> are strictly increasing; and a further
  input emits \<open>newCheckpoint\<close> exactly when the recomputed value is strictly greater
  than the current global checkpoint.
\<close>

theorem syncGateway_checkpoint_reducer:
  assumes "networks \<noteq> []"
    and "\<forall>i \<in> set pre. isReset i \<longrightarrow> inputChain i \<in> set networks"
    and "\<forall>i \<in> set post. \<not> isReset i"
    and "gw0 = gatewayRun pre (newSyncGateway networks)"
    and "gw = gatewayRun post gw0"
  shows "recomputedCheckpoint gw = Some (gw_checkpoint gw) \<and>
         gw_checkpoint gw = last (gw_checkpoint gw0 # newCheckpointsSince gw0 gw) \<and>
         sorted_wrt (<) (newCheckpointsSince gw0 gw) \<and>
         (\<forall>c \<in> set (newCheckpointsSince gw0 gw). gw_checkpoint gw0 < c) \<and>
         (\<forall>i. \<not> isReset i \<longrightarrow>
            recomputedCheckpoint (gatewayStep i gw) = Some (gw_checkpoint (gatewayStep i gw)) \<and>
            newCheckpoints (gw_emitted (gatewayStep i gw)) =
              newCheckpoints (gw_emitted gw) @
                (if gw_checkpoint gw < gw_checkpoint (gatewayStep i gw)
                 then [gw_checkpoint (gatewayStep i gw)] else []))"
proof -
  have c0: "gw_chains (newSyncGateway networks) = networks" by (simp add: newSyncGateway_def)
  from gatewayRun_inv[OF newSyncGateway_inv[OF assms(1)], of pre] assms(2,4) c0
  have inv0: "gatewayInv gw0" by simp
  from gatewayRun_no_reset[OF inv0 assms(3)] assms(5) obtain es where es:
    "newCheckpoints (gw_emitted gw) = newCheckpoints (gw_emitted gw0) @ es"
    "sorted_wrt (<) es" "\<forall>c \<in> set es. gw_checkpoint gw0 < c"
    "gw_checkpoint gw = last (gw_checkpoint gw0 # es)"
    by blast
  note since = newCheckpointsSince_append[OF es(1)]
  from gatewayRun_inv[OF inv0, of post] assms(3,5) have inv: "gatewayInv gw" by simp
  have step: "recomputedCheckpoint (gatewayStep i gw) = Some (gw_checkpoint (gatewayStep i gw)) \<and>
            newCheckpoints (gw_emitted (gatewayStep i gw)) =
              newCheckpoints (gw_emitted gw) @
                (if gw_checkpoint gw < gw_checkpoint (gatewayStep i gw)
                 then [gw_checkpoint (gatewayStep i gw)] else [])" if "\<not> isReset i" for i
    using gatewayStep_no_reset[OF inv that] by (simp add: gatewayInv_def)
  from inv es(2,3,4) step show ?thesis
    unfolding since by (simp add: gatewayInv_def)
qed

text \<open>
  With a reset in between, a later \<open>newCheckpoint\<close> can be smaller than an earlier
  one: \<open>resetCheckpoints\<close> puts the global checkpoint back to zero.
\<close>

theorem syncGateway_reset_counterexample:
  "newCheckpoints (gw_emitted (gatewayRun
      [HistoricalCheckpoint (Checkpoint 10 1 0 (Some 0)), ResetCheckpoints 1,
       HistoricalCheckpoint (Checkpoint 5 1 0 (Some 0))] (newSyncGateway [1]))) =
     [Checkpoint 10 1 0 (Some 0), Checkpoint 5 1 0 (Some 0)] \<and>
   \<not> Checkpoint 10 1 0 (Some 0) < Checkpoint 5 1 0 (Some 0)"
  by code_simp

text \<open>The run of the source's test "handleNewRealtimeCheckpoint emits new checkpoint if
  historical sync is complete".\<close>

lemma gateway_test_eval:
  "newCheckpoints (gw_emitted (gatewayRun
      [RealtimeCheckpoint (Checkpoint 20 1 0 (Some 0)), RealtimeCheckpoint (Checkpoint 22 10 0 (Some 0)),
       HistoricalCheckpoint (Checkpoint 12 10 0 (Some 0)), HistoricalCheckpoint (Checkpoint 10 1 0 (Some 0)),
       HistoricalSyncComplete 10, HistoricalSyncComplete 1,
       RealtimeCheckpoint (Checkpoint 27 10 0 (Some 0)), RealtimeCheckpoint (Checkpoint 25 1 0 (Some 0))]
      (newSyncGateway [1, 10]))) =
   [Checkpoint 10 1 0 (Some 0), Checkpoint 20 1 0 (Some 0), Checkpoint 25 1 0 (Some 0)]"
  by code_simp

theorem syncGateway_checkpoint_reducer_witness:
  "[1, 10] \<noteq> ([] :: nat list) \<and>
   newCheckpointsSince (newSyncGateway [1, 10]) (gatewayRun
      [RealtimeCheckpoint (Checkpoint 20 1 0 (Some 0)), RealtimeCheckpoint (Checkpoint 22 10 0 (Some 0)),
       HistoricalCheckpoint (Checkpoint 12 10 0 (Some 0)), HistoricalCheckpoint (Checkpoint 10 1 0 (Some 0)),
       HistoricalSyncComplete 10, HistoricalSyncComplete 1,
       RealtimeCheckpoint (Checkpoint 27 10 0 (Some 0)), RealtimeCheckpoint (Checkpoint 25 1 0 (Some 0))]
      (newSyncGateway [1, 10])) =
     [Checkpoint 10 1 0 (Some 0), Checkpoint 20 1 0 (Some 0), Checkpoint 25 1 0 (Some 0)] \<and>
   sorted_wrt (<) [Checkpoint 10 1 0 (Some 0), Checkpoint 20 1 0 (Some 0), Checkpoint 25 1 0 (Some 0)] \<and>
   gw_checkpoint (gatewayRun
      [RealtimeCheckpoint (Checkpoint 20 1 0 (Some 0)), RealtimeCheckpoint (Checkpoint 22 10 0 (Some 0)),
       HistoricalCheckpoint (Checkpoint 12 10 0 (Some 0)), HistoricalCheckpoint (Checkpoint 10 1 0 (Some 0)),
       HistoricalSyncComplete 10, HistoricalSyncComplete 1,
       RealtimeCheckpoint (Checkpoint 27 10 0 (Some 0)), RealtimeCheckpoint (Checkpoint 25 1 0 (Some 0))]
      (newSyncGateway [1, 10])) = Checkpoint 25 1 0 (Some 0)"
proof -
  let ?post = "[RealtimeCheckpoint (Checkpoint 20 1 0 (Some 0)), RealtimeCheckpoint (Checkpoint 22 10 0 (Some 0)),
       HistoricalCheckpoint (Checkpoint 12 10 0 (Some 0)), HistoricalCheckpoint (Checkpoint 10 1 0 (Some 0)),
       HistoricalSyncComplete 10, HistoricalSyncComplete 1,
       RealtimeCheckpoint (Checkpoint 27 10 0 (Some 0)), RealtimeCheckpoint (Checkpoint 25 1 0 (Some 0))]"
  have ne: "[1, 10] \<noteq> ([] :: nat list)" by simp
  have pre: "\<forall>i \<in> set []. isReset i \<longrightarrow> inputChain i \<in> set [1, 10 :: nat]" by simp
  have post: "\<forall>i \<in> set ?post. \<not> isReset i" by simp
  have g0: "newSyncGateway [1, 10] = gatewayRun [] (newSyncGateway [1, 10])"
    by (simp add: gatewayRun_def)
  have since: "newCheckpointsSince (newSyncGateway [1, 10]) (gatewayRun ?post (newSyncGateway [1, 10])) =
     [Checkpoint 10 1 0 (Some 0), Checkpoint 20 1 0 (Some 0), Checkpoint 25 1 0 (Some 0)]"
    unfolding newCheckpointsSince_def gateway_test_eval by (simp add: newSyncGateway_def)
  have z: "gw_checkpoint (newSyncGateway [1, 10]) = zeroCheckpoint" by (simp add: newSyncGateway_def)
  from syncGateway_checkpoint_reducer[OF ne pre post g0 refl] since ne z
  show ?thesis by simp
qed

section \<open>Verification: handleReorg\<close>


lemma clampState_min:
  "clampState safe state =
     state\<lparr>tasksProcessedToCheckpoint := min (tasksProcessedToCheckpoint state) safe,
           tasksLoadedFromCheckpoint := min (tasksLoadedFromCheckpoint state) safe,
           tasksLoadedToCheckpoint := min (tasksLoadedToCheckpoint state) safe\<rparr>"
  by (auto simp: clampState_def isCheckpointGreaterThan_def min_def Let_def)

text \<open>
  Claim C5. \<open>handleReorg safeCheckpoint\<close> leaves the service as it is when no function
  state has \<open>tasksProcessedToCheckpoint\<close> strictly greater than \<open>safeCheckpoint\<close>.
  Otherwise it calls the entity store's \<open>revert\<close> with \<open>safeCheckpoint\<close> exactly once
  and replaces each of the three checkpoints of every function state by its minimum
  with \<open>safeCheckpoint\<close> (values already \<open>\<le> safeCheckpoint\<close> stay); buffers, queue and
  pause flag are not touched.
\<close>

theorem handleReorg_clamp:
  "(\<not> (\<exists>(key, state) \<in> set (indexingFunctionStates svc).
          safeCheckpoint < tasksProcessedToCheckpoint state) \<longrightarrow>
      handleReorg safeCheckpoint svc = svc) \<and>
   ((\<exists>(key, state) \<in> set (indexingFunctionStates svc).
          safeCheckpoint < tasksProcessedToCheckpoint state) \<longrightarrow>
      effects (handleReorg safeCheckpoint svc) = effects svc @ [Revert safeCheckpoint] \<and>
      indexingFunctionStates (handleReorg safeCheckpoint svc) =
        map (\<lambda>(key, state).
               (key, state\<lparr>tasksProcessedToCheckpoint :=
                              min (tasksProcessedToCheckpoint state) safeCheckpoint,
                            tasksLoadedFromCheckpoint :=
                              min (tasksLoadedFromCheckpoint state) safeCheckpoint,
                            tasksLoadedToCheckpoint :=
                              min (tasksLoadedToCheckpoint state) safeCheckpoint\<rparr>))
          (indexingFunctionStates svc) \<and>
      queue (handleReorg safeCheckpoint svc) = queue svc \<and>
      isPaused (handleReorg safeCheckpoint svc) = isPaused svc)"
proof -
  have ex: "list_ex (\<lambda>(key, state).
                       isCheckpointGreaterThan (tasksProcessedToCheckpoint state) safeCheckpoint)
              (indexingFunctionStates svc) =
            (\<exists>(key, state) \<in> set (indexingFunctionStates svc).
                safeCheckpoint < tasksProcessedToCheckpoint state)"
    by (auto simp: list_ex_iff isCheckpointGreaterThan_def)
  show ?thesis
    unfolding handleReorg_def Let_def ex
    by (simp add: clampState_min)
qed

theorem handleReorg_clamp_witness:
  "handleReorg (Checkpoint 100 1 1000 (Some 5)) reorgScheduler = reorgScheduler \<and>
   effects (handleReorg (Checkpoint 90 1 900 (Some 0)) reorgScheduler) =
     [Revert (Checkpoint 90 1 900 (Some 0))] \<and>
   map (\<lambda>(key, state). (key, tasksProcessedToCheckpoint state, tasksLoadedFromCheckpoint state,
                          tasksLoadedToCheckpoint state))
     (indexingFunctionStates (handleReorg (Checkpoint 90 1 900 (Some 0)) reorgScheduler)) =
     [(''A:Transfer'', Checkpoint 90 1 900 (Some 0), Checkpoint 90 1 900 (Some 0),
       Checkpoint 90 1 900 (Some 0)),
      (''B:Transfer'', Checkpoint 90 1 900 (Some 0), Checkpoint 90 1 900 (Some 0),
       Checkpoint 90 1 900 (Some 0))]"
proof -
  have lt: "Checkpoint 90 1 900 (Some 0) < Checkpoint 100 1 1000 (Some 5)"
    by (simp add: less_checkpoint_def)
  have noop: "\<not> (\<exists>(key, state) \<in> set (indexingFunctionStates reorgScheduler).
      Checkpoint 100 1 1000 (Some 5) < tasksProcessedToCheckpoint state)"
    by (simp add: reorgScheduler_def exampleService_def exampleState_def)
  have some: "\<exists>(key, state) \<in> set (indexingFunctionStates reorgScheduler).
      Checkpoint 90 1 900 (Some 0) < tasksProcessedToCheckpoint state"
    using lt by (simp add: reorgScheduler_def exampleService_def exampleState_def)
  have m: "min (Checkpoint 100 1 1000 (Some 5)) (Checkpoint 90 1 900 (Some 0)) =
           Checkpoint 90 1 900 (Some 0)"
    using lt by (simp add: min_def)
  from handleReorg_clamp[where safeCheckpoint = "Checkpoint 100 1 1000 (Some 5)" and svc = reorgScheduler] noop
  have 1: "handleReorg (Checkpoint 100 1 1000 (Some 5)) reorgScheduler = reorgScheduler"
    by blast
  from handleReorg_clamp[where safeCheckpoint = "Checkpoint 90 1 900 (Some 0)" and svc = reorgScheduler] some
  have 2: "effects (handleReorg (Checkpoint 90 1 900 (Some 0)) reorgScheduler) =
             effects reorgScheduler @ [Revert (Checkpoint 90 1 900 (Some 0))]"
    and 3: "indexingFunctionStates (handleReorg (Checkpoint 90 1 900 (Some 0)) reorgScheduler) =
        map (\<lambda>(key, state).
               (key, state\<lparr>tasksProcessedToCheckpoint :=
                              min (tasksProcessedToCheckpoint state) (Checkpoint 90 1 900 (Some 0)),
                            tasksLoadedFromCheckpoint :=
                              min (tasksLoadedFromCheckpoint state) (Checkpoint 90 1 900 (Some 0)),
                            tasksLoadedToCheckpoint :=
                              min (tasksLoadedToCheckpoint state) (Checkpoint 90 1 900 (Some 0))\<rparr>))
          (indexingFunctionStates reorgScheduler)"
    by blast+
  show ?thesis
    unfolding 1 2 3 using m
    by (simp add: reorgScheduler_def exampleService_def exampleState_def)
qed

section \<open>Verification: enqueueLogEventTasks\<close>





lemma getState_setState:
  "getState (setState k v svc) k' = (if k' = k then Some v else getState svc k')"
  by (simp add: getState_def setState_def update_conv')















section \<open>Verification: executeLogEventTask\<close>

lemma getState_effects [simp]: "getState (svc\<lparr>effects := e\<rparr>) key = getState svc key"
  by (simp add: getState_def)




lemma attemptFailsRetryably_effects [simp]:
  "attemptFailsRetryably f data (svc\<lparr>effects := e\<rparr>) = attemptFailsRetryably f data svc"
  by (simp add: attemptFailsRetryably_def fun_eq_iff)

lemma attemptSucceeds_effects [simp]:
  "attemptSucceeds f data (svc\<lparr>effects := e\<rparr>) = attemptSucceeds f data svc"
  by (simp add: attemptSucceeds_def fun_eq_iff)











end
